theory Spec2Isabelle
  imports Complex_Main "HOL-Library.Sublist"
begin

section \<open>Values, errors and arrays\<close>

text \<open>
  The program is Python over numpy and scipy. Its float64 and complex128 numbers are
  modelled by the exact fields \<^typ>\<open>real\<close> and \<^typ>\<open>complex\<close>: rounding, overflow and
  NaN are outside the model, and every statement below is one of exact arithmetic. The one
  float that the code compares with \<open>np.inf\<close>, the field inhomogeneity \<open>b1_inh\<close>, keeps
  its non-finite values.

  Every exception is a value: a function that can raise returns \<open>error + 'a\<close>, with
  \<open>Inl\<close> the exception. The code has no \<open>try\<close>, so an \<open>Inl\<close> is passed on unchanged.
\<close>

datatype error =
  KeyError | IndexError | TypeError | ValueError | ZeroDivisionError | LinAlgError
  | ImportError | AttributeError | OSError

datatype pyfloat = Finite real | PosInf | NegInf | NaN

text \<open>\<open>x == np.inf\<close>: true for positive infinity only.\<close>

definition eq_np_inf :: "pyfloat \<Rightarrow> bool" where
  "eq_np_inf x = (case x of PosInf \<Rightarrow> True | _ \<Rightarrow> False)"

text \<open>
  An lmfit parameter, as far as the code touches it: its value and the expression that
  ties it to other parameters (\<open>None\<close> when it is free).
\<close>

record param =
  pvalue :: real
  vary :: bool
  expr :: "string option"

text \<open>
  A numpy array over the basis of a state-space model is the function from its indices
  to its entries; the basis size \<open>dim\<close> is kept by the model, and an index is in range
  when it is below \<open>dim\<close>. Indices are naturals: numpy's negative indices do not
  occur. Keyword arguments are a dictionary from names to floats.
\<close>

type_synonym mat = "nat \<Rightarrow> nat \<Rightarrow> complex"
type_synonym vec = "nat \<Rightarrow> complex"
type_synonym kwargs = "string \<rightharpoonup> real"

text \<open>
  A two-dimensional array whose shape is known only at run time (a block cut out of a
  matrix by \<open>np.ix_\<close>): its shape and its rows. The shape is kept because an array with
  no rows still has a number of columns.
\<close>

record arr2 =
  nrows :: nat
  ncols :: nat
  rows :: "complex list list"

text \<open>
  What \<open>np.float64(x)\<close> returns for a one-dimensional real array \<open>x\<close>: a scalar when
  the array has one entry, the array otherwise.
\<close>

datatype npval = Scalar real | Array "real list"

section \<open>The state-space model and the profile\<close>

text \<open>
  The modules \<open>chemex.bases.{two,three,four}_state.ixyz_eq\<close> are not part of the
  sources at hand. A basis is therefore a parameter: its size, and the functions and
  index groups the profile reads from it. Its functions take their keyword arguments as
  one dictionary, since the code calls \<open>compute_liouvillian\<close> with different keywords in
  different places.
\<close>

record basis =
  dim :: nat
  compute_liouvillian :: "kwargs \<Rightarrow> mat"
  compute_equilibrium_after_d1 :: "kwargs \<Rightarrow> vec"
  create_default_params ::
    "string \<Rightarrow> string \<Rightarrow> real \<Rightarrow> real \<Rightarrow> real option \<Rightarrow> real option
      \<Rightarrow> (string \<rightharpoonup> string) \<times> (string \<rightharpoonup> param)"
  index_iz_eq :: "nat list"
  index_iz_b :: "nat list"

text \<open>
  \<open>scipy.linalg\<close> is a parameter too: each of its three functions either raises or
  returns arrays of the dimension of the matrix it was given (the first argument).
\<close>

record linalg =
  linalg_eig :: "nat \<Rightarrow> mat \<Rightarrow> error + (vec \<times> mat)"
  linalg_inv :: "nat \<Rightarrow> mat \<Rightarrow> error + mat"
  linalg_expm :: "nat \<Rightarrow> mat \<Rightarrow> error + mat"

text \<open>
  The measurement arrays every profile holds, the fields that the parent class
  \<open>CESTProfile\<close> sets and the code reads, and the fields \<open>Profile.__init__\<close> adds.
\<close>

record base_profile =
  profile_id :: string
  val :: "real list"
  err :: "real list"

record cest_profile = base_profile +
  b1_offsets :: "real list"
  reference :: "bool list"
  carrier :: real
  ppm_i :: real
  on_resonance_filter :: real
  time_t1 :: real
  b1_inh :: pyfloat
  b1_weights :: "real list"
  omega1s :: "real list"
  model :: string
  nuclei :: string
  temperature :: real
  h_larmor_frq :: real
  p_total :: "real option"
  l_total :: "real option"

record profile = cest_profile +
  time_d1 :: real
  equilibrium :: bool
  base :: basis
  liouvillians_b1 :: "mat list"
  map_names :: "string \<rightharpoonup> string"
  default_params :: "string \<rightharpoonup> param"

section \<open>The data-selection filter\<close>

text \<open>
  \<open>a[mask]\<close> for a boolean mask: numpy keeps the entries at the positions where the mask
  is true. It raises IndexError when the mask is not as long as the array, except for an
  empty mask, which it accepts on an array of any length and which selects nothing.
\<close>

definition mask_index :: "'a list \<Rightarrow> bool list \<Rightarrow> error + 'a list" where
  "mask_index a msk =
     (if msk \<noteq> [] \<and> length msk \<noteq> length a then Inl IndexError
      else Inr (map fst (filter snd (zip a msk))))"

text \<open>
  \<open>Profile.filter_points\<close>. The subscript \<open>self.map_names['cs_i_b']\<close> is evaluated
  before \<open>params\<close> is subscripted, so a missing name raises KeyError also when
  \<open>params\<close> is \<open>None\<close>. The four arrays are replaced one after the other; the model
  returns the new profile when all four succeed, and only the exception otherwise.
\<close>

definition filter_points ::
  "'z profile_scheme \<Rightarrow> (string \<rightharpoonup> param) option \<Rightarrow> error + 'z profile_scheme"
where
  "filter_points self params =
     (case map_names self ''cs_i_b'' of
        None \<Rightarrow> Inl KeyError
      | Some full \<Rightarrow>
     (case params of
        None \<Rightarrow> Inl TypeError
      | Some ps \<Rightarrow>
     (case ps full of
        None \<Rightarrow> Inl KeyError
      | Some par \<Rightarrow>
        let cs = pvalue par;
            nu_offsets =
              map (\<lambda>b1. (cs - carrier self) * ppm_i self / (2.0 * pi) - b1) (b1_offsets self);
            msk = map (\<lambda>nu. \<bar>nu\<bar> > on_resonance_filter self * 0.5) nu_offsets
        in
        (case mask_index (b1_offsets self) msk of Inl e \<Rightarrow> Inl e | Inr b1_offsets' \<Rightarrow>
        (case mask_index (val self) msk of Inl e \<Rightarrow> Inl e | Inr val' \<Rightarrow>
        (case mask_index (err self) msk of Inl e \<Rightarrow> Inl e | Inr err' \<Rightarrow>
        (case mask_index (reference self) msk of Inl e \<Rightarrow> Inl e | Inr reference' \<Rightarrow>
           Inr (self\<lparr>b1_offsets := b1_offsets', val := val', err := err',
                      reference := reference'\<rparr>))))))))"

text \<open>
  The measurements of a profile, one tuple per point: irradiation offset, intensity,
  uncertainty and reference flag. The absolute separation in Hz between the resonance
  of a state with chemical shift \<open>cs\<close> and an irradiation offset.
\<close>

definition points :: "'z profile_scheme \<Rightarrow> (real \<times> real \<times> real \<times> bool) list" where
  "points self = zip (b1_offsets self) (zip (val self) (zip (err self) (reference self)))"

definition separation :: "'z profile_scheme \<Rightarrow> real \<Rightarrow> real \<Rightarrow> real" where
  "separation self cs b1 = \<bar>(cs - carrier self) * ppm_i self / (2 * pi) - b1\<bar>"

definition same_lengths :: "'z profile_scheme \<Rightarrow> bool" where
  "same_lengths self \<longleftrightarrow>
     length (val self) = length (b1_offsets self) \<and>
     length (err self) = length (b1_offsets self) \<and>
     length (reference self) = length (b1_offsets self)"

section \<open>numpy operations\<close>

text \<open>
  Entrywise sum of two matrices of one basis, and a matrix times a float. The sum
  \<open>self.liouvillians_b1 + louvillian_nob1\<close> adds the no-field matrix to every matrix of
  the stack.
\<close>

definition madd :: "mat \<Rightarrow> mat \<Rightarrow> mat" where
  "madd a b = (\<lambda>i j. a i j + b i j)"

definition mscale :: "mat \<Rightarrow> real \<Rightarrow> mat" where
  "mscale a t = (\<lambda>i j. a i j * complex_of_real t)"

text \<open>
  \<open>a[np.ix_(r, c)]\<close> for an array \<open>a\<close> of dimension \<open>n\<close>: the block of the rows \<open>r\<close>
  and the columns \<open>c\<close>, IndexError when an index is out of range. \<open>v[idx]\<close> for a
  vector likewise.
\<close>

definition np_ix :: "nat \<Rightarrow> mat \<Rightarrow> nat list \<Rightarrow> nat list \<Rightarrow> error + arr2" where
  "np_ix n a r c =
     (if list_all (\<lambda>i. i < n) r \<and> list_all (\<lambda>j. j < n) c
      then Inr \<lparr>nrows = length r, ncols = length c, rows = map (\<lambda>i. map (\<lambda>j. a i j) c) r\<rparr>
      else Inl IndexError)"

definition take_vec :: "nat \<Rightarrow> vec \<Rightarrow> nat list \<Rightarrow> error + complex list" where
  "take_vec n v idx = (if list_all (\<lambda>i. i < n) idx then Inr (map v idx) else Inl IndexError)"

text \<open>\<open>np.diag(v)\<close>: the square array with \<open>v\<close> on its diagonal.\<close>

definition diag :: "complex list \<Rightarrow> arr2" where
  "diag v =
     \<lparr>nrows = length v, ncols = length v,
      rows = map (\<lambda>i. map (\<lambda>j. if i = j then v ! i else 0) [0..<length v]) [0..<length v]\<rparr>"

text \<open>
  \<open>a.dot(b)\<close> for two-dimensional arrays: entry \<open>(i, j)\<close> is the sum over \<open>k\<close> of
  \<open>a[i][k] * b[k][j]\<close>. numpy raises ValueError unless the number of columns of \<open>a\<close> is
  the number of rows of \<open>b\<close>; at the call sites below the inner dimensions agree by
  construction, so the function is total here.
  \<open>a.dot(v)\<close> for a vector \<open>v\<close> is the same with one column.
\<close>

definition dot :: "arr2 \<Rightarrow> arr2 \<Rightarrow> arr2" where
  "dot a b =
     \<lparr>nrows = nrows a, ncols = ncols b,
      rows = map (\<lambda>ra. map (\<lambda>j. sum_list (map2 (\<lambda>x rb. x * rb ! j) ra (rows b))) [0..<ncols b])
               (rows a)\<rparr>"

definition dot_vec :: "arr2 \<Rightarrow> complex list \<Rightarrow> complex list" where
  "dot_vec a v = map (\<lambda>ra. sum_list (map2 (\<lambda>x y. x * y) ra v)) (rows a)"

text \<open>
  \<open>np.average(a, weights=w, axis=0)\<close> for a list \<open>a\<close> of matrices of one basis: numpy
  raises ValueError when there are not as many weights as matrices, ZeroDivisionError
  when the weights sum to zero, and otherwise divides the weighted sum by the sum of
  the weights.
\<close>

definition np_average :: "mat list \<Rightarrow> real list \<Rightarrow> error + mat" where
  "np_average a weights =
     (if length weights \<noteq> length a then Inl ValueError
      else let scl = sum_list weights in
        if scl = 0 then Inl ZeroDivisionError
        else Inr (\<lambda>i j. sum_list (map2 (\<lambda>p w. p i j * complex_of_real w) a weights)
                          / complex_of_real scl))"

definition np_float64 :: "real list \<Rightarrow> npval" where
  "np_float64 x = (case x of [y] \<Rightarrow> Scalar y | _ \<Rightarrow> Array x)"

text \<open>
  A call \<open>f(k1=v1, ..., **kwargs)\<close>: Python raises TypeError when \<open>kwargs\<close> holds one of
  the explicit keywords, and passes the union otherwise.
\<close>

definition call_kw :: "(string \<times> real) list \<Rightarrow> kwargs \<Rightarrow> error + kwargs" where
  "call_kw named kw =
     (if list_ex (\<lambda>(k, v). kw k \<noteq> None) named then Inl TypeError
      else Inr (kw ++ map_of named))"

text \<open>A list comprehension over a function that can raise: the first exception ends it.\<close>

fun map_err :: "('a \<Rightarrow> error + 'b) \<Rightarrow> 'a list \<Rightarrow> error + 'b list" where
  "map_err f [] = Inr []"
| "map_err f (x # xs) =
     (case f x of
        Inl e \<Rightarrow> Inl e
      | Inr y \<Rightarrow> (case map_err f xs of Inl e \<Rightarrow> Inl e | Inr ys \<Rightarrow> Inr (y # ys)))"

section \<open>The profile simulation\<close>

text \<open>
  The loop of \<open>Profile.calculate_unscaled_profile\<close>, for one irradiation offset, in the
  order of the source. Lines 97 to 104: the four offsets from the carrier and the no-field
  Liouvillian.
\<close>

definition louvillian_nob1_at ::
  "'z profile_scheme \<Rightarrow> kwargs \<Rightarrow> real list \<Rightarrow> real \<Rightarrow> error + mat"
where
  "louvillian_nob1_at self kwargs omega_i_cars b1_offset =
     (let omegas = map (\<lambda>om. om - 2.0 * pi * b1_offset) omega_i_cars in
      (case call_kw (zip [''omega_i_a'', ''omega_i_b'', ''omega_i_c'', ''omega_i_d''] omegas) kwargs of
         Inl e \<Rightarrow> Inl e
       | Inr kw \<Rightarrow> Inr (compute_liouvillian (base self) kw)))"

text \<open>
  Lines 109 to 115, the branch taken when \<open>self.b1_inh == np.inf\<close>: the first Liouvillian
  is eigendecomposed, the eigenvector matrix inverted, the eigenvalues with a small
  imaginary part selected, and the propagator multiplied out of three blocks.
\<close>

definition ideal_propagator ::
  "linalg \<Rightarrow> nat \<Rightarrow> real \<Rightarrow> nat list \<Rightarrow> nat list \<Rightarrow> mat list \<Rightarrow> error + arr2"
where
  "ideal_propagator la n time_t1' start end' liouvillians =
     (case liouvillians of
        [] \<Rightarrow> Inl IndexError
      | liouvillian0 # _ \<Rightarrow>
     (case linalg_eig la n liouvillian0 of
        Inl e \<Rightarrow> Inl e
      | Inr (s, vr) \<Rightarrow>
     (case linalg_inv la n vr of
        Inl e \<Rightarrow> Inl e
      | Inr vri \<Rightarrow>
        let sl = filter (\<lambda>i. \<bar>Im (s i)\<bar> < 0.1) [0..<n] in
     (case np_ix n vr end' sl of
        Inl e \<Rightarrow> Inl e
      | Inr vr_block \<Rightarrow>
     (case np_ix n vri sl start of
        Inl e \<Rightarrow> Inl e
      | Inr vri_block \<Rightarrow>
        Inr (dot (dot vr_block (diag (map (\<lambda>k. exp (s k * complex_of_real time_t1')) sl)))
               vri_block))))))"

text \<open>
  Lines 118 to 121, the other branch: the matrix exponential of every Liouvillian of the
  stack, their average with the weights \<open>self.b1_weights\<close>, and the block \<open>[mesh]\<close>.
\<close>

definition averaged_propagator ::
  "linalg \<Rightarrow> nat \<Rightarrow> real \<Rightarrow> real list \<Rightarrow> nat list \<Rightarrow> nat list \<Rightarrow> mat list \<Rightarrow> error + arr2"
where
  "averaged_propagator la n time_t1' weights start end' liouvillians =
     (case map_err (\<lambda>liouvillian. linalg_expm la n (mscale liouvillian time_t1')) liouvillians of
        Inl e \<Rightarrow> Inl e
      | Inr propagators \<Rightarrow>
        (case np_average propagators weights of
           Inl e \<Rightarrow> Inl e
         | Inr avg \<Rightarrow> np_ix n avg end' start))"

text \<open>
  Lines 97 to 121. The stack \<open>self.liouvillians_b1\<close> has one matrix per field value; with
  an empty stack the sum with the no-field matrix already raises ValueError (the shapes
  do not broadcast).
\<close>

definition propagator ::
  "linalg \<Rightarrow> 'z profile_scheme \<Rightarrow> kwargs \<Rightarrow> real list \<Rightarrow> nat list \<Rightarrow> nat list \<Rightarrow> real
     \<Rightarrow> error + arr2"
where
  "propagator la self kwargs omega_i_cars start end' b1_offset =
     (case louvillian_nob1_at self kwargs omega_i_cars b1_offset of
        Inl e \<Rightarrow> Inl e
      | Inr louvillian_nob1 \<Rightarrow>
        if liouvillians_b1 self = [] then Inl ValueError
        else
          let liouvillians = map (\<lambda>l. madd l louvillian_nob1) (liouvillians_b1 self) in
          if eq_np_inf (b1_inh self)
          then ideal_propagator la (dim (base self)) (time_t1 self) start end' liouvillians
          else averaged_propagator la (dim (base self)) (time_t1 self) (b1_weights self)
                 start end' liouvillians)"

text \<open>
  One pass of the loop (lines 96 to 125): the propagator applied to \<open>mag0[start]\<close>, its
  real part, appended to \<open>profile\<close>. Then the loop over \<open>self.b1_offsets\<close>.
\<close>

definition intensity ::
  "linalg \<Rightarrow> 'z profile_scheme \<Rightarrow> kwargs \<Rightarrow> real list \<Rightarrow> nat list \<Rightarrow> nat list \<Rightarrow> vec \<Rightarrow> real
     \<Rightarrow> error + npval"
where
  "intensity la self kwargs omega_i_cars start end' mag0 b1_offset =
     (case propagator la self kwargs omega_i_cars start end' b1_offset of
        Inl e \<Rightarrow> Inl e
      | Inr p \<Rightarrow>
        (case take_vec (dim (base self)) mag0 start of
           Inl e \<Rightarrow> Inl e
         | Inr mag0_start \<Rightarrow>
           let magz_b = map Re (dot_vec p mag0_start) in Inr (np_float64 magz_b)))"

fun profile_loop ::
  "linalg \<Rightarrow> 'z profile_scheme \<Rightarrow> kwargs \<Rightarrow> real list \<Rightarrow> nat list \<Rightarrow> nat list \<Rightarrow> vec
     \<Rightarrow> real list \<Rightarrow> npval list \<Rightarrow> error + npval list"
where
  "profile_loop la self kwargs omega_i_cars start end' mag0 [] profile = Inr profile"
| "profile_loop la self kwargs omega_i_cars start end' mag0 (b1_offset # rest) profile =
     (case intensity la self kwargs omega_i_cars start end' mag0 b1_offset of
        Inl e \<Rightarrow> Inl e
      | Inr x \<Rightarrow>
        profile_loop la self kwargs omega_i_cars start end' mag0 rest (profile @ [x]))"

text \<open>\<open>Profile.calculate_unscaled_profile\<close> (lines 85 to 127).\<close>

definition omega_i_cars_of :: "'z profile_scheme \<Rightarrow> kwargs \<Rightarrow> real list" where
  "omega_i_cars_of self kwargs =
     (let cs_i = map (\<lambda>key. case kwargs key of None \<Rightarrow> 0.0 | Some v \<Rightarrow> v)
                   [''cs_i_a'', ''cs_i_b'', ''cs_i_c'', ''cs_i_d'']
      in map (\<lambda>cs. (cs - carrier self) * ppm_i self) cs_i)"

definition calculate_unscaled_profile ::
  "linalg \<Rightarrow> 'z profile_scheme \<Rightarrow> kwargs \<Rightarrow> error + npval list"
where
  "calculate_unscaled_profile la self kwargs =
     (let omega_i_cars = omega_i_cars_of self kwargs;
          start = index_iz_eq (base self);
          end' = index_iz_b (base self)
      in
      (case call_kw [(''time_d1'', time_d1 self)] kwargs of
         Inl e \<Rightarrow> Inl e
       | Inr kw \<Rightarrow>
         let mag0 = compute_equilibrium_after_d1 (base self) kw in
         profile_loop la self kwargs omega_i_cars start end' mag0 (b1_offsets self) []))"

section \<open>Profile construction\<close>

text \<open>
  \<open>Profile.__init__\<close>, lines 34 to 41: the three \<open>ixyz_eq\<close> modules are the candidates,
  and \<open>'3st' in self.model\<close> is Python's substring test.
\<close>

definition select_base :: "string \<Rightarrow> basis \<Rightarrow> basis \<Rightarrow> basis \<Rightarrow> basis" where
  "select_base m two_state three_state four_state =
     (if sublist ''3st'' m then three_state
      else if sublist ''4st'' m then four_state
      else two_state)"

text \<open>
  Lines 54 to 57, the loop over \<open>('r2_i_b', 'r2_i_c', 'r2_i_d')\<close>: a name that is in
  \<open>map_names\<close> has its parameter looked up in \<open>default_params\<close> (KeyError when it is
  not there) and the parameter's \<open>expr\<close> set to \<open>map_names['r2_i_a']\<close> (KeyError when
  that name is missing). The setter of \<open>expr\<close> in lmfit also makes the parameter fixed
  (\<open>vary = False\<close>); its value is from then on what the expression evaluates to, which
  lmfit computes when the value is read and which the field \<open>pvalue\<close> does not follow.
\<close>

fun tie_r2 ::
  "string list \<Rightarrow> (string \<rightharpoonup> string) \<Rightarrow> (string \<rightharpoonup> param) \<Rightarrow> error + (string \<rightharpoonup> param)"
where
  "tie_r2 [] names params = Inr params"
| "tie_r2 (name # rest) names params =
     (case names name of
        None \<Rightarrow> tie_r2 rest names params
      | Some full \<Rightarrow>
        (case params full of
           None \<Rightarrow> Inl KeyError
         | Some par \<Rightarrow>
           (case names ''r2_i_a'' of
              None \<Rightarrow> Inl KeyError
            | Some r2_i_a \<Rightarrow>
                tie_r2 rest names (params(full \<mapsto> par\<lparr>expr := Some r2_i_a, vary := False\<rparr>)))))"

text \<open>
  \<open>Profile.__init__\<close>. The parent's constructor and \<open>base_profile.check_par\<close> are not in
  the sources at hand: \<open>super_init\<close> gives the object as the parent leaves it, and
  \<open>check_par_float\<close> and \<open>check_par_bool\<close> are \<open>check_par\<close> at the two types it is
  called with.
\<close>

definition init ::
  "basis \<Rightarrow> basis \<Rightarrow> basis
     \<Rightarrow> (string \<Rightarrow> 'm \<Rightarrow> (string \<rightharpoonup> string) \<Rightarrow> error + cest_profile)
     \<Rightarrow> ((string \<rightharpoonup> string) \<Rightarrow> string \<Rightarrow> real \<Rightarrow> error + real)
     \<Rightarrow> ((string \<rightharpoonup> string) \<Rightarrow> string \<Rightarrow> bool \<Rightarrow> error + bool)
     \<Rightarrow> string \<Rightarrow> 'm \<Rightarrow> (string \<rightharpoonup> string) \<Rightarrow> error + profile"
where
  "init two_state three_state four_state super_init check_par_float check_par_bool
        name measurements exp_details =
     (case super_init name measurements exp_details of
        Inl e \<Rightarrow> Inl e
      | Inr self \<Rightarrow>
     (case check_par_float exp_details ''time_d1'' 1.0 of
        Inl e \<Rightarrow> Inl e
      | Inr time_d1' \<Rightarrow>
     (case check_par_bool exp_details ''equilibrium'' False of
        Inl e \<Rightarrow> Inl e
      | Inr equilibrium' \<Rightarrow>
        let ixyz_eq = select_base (model self) two_state three_state four_state;
            liouvillians_b1' =
              map (\<lambda>omega1. compute_liouvillian ixyz_eq [''omega1x_i'' \<mapsto> omega1]) (omega1s self);
            (map_names', default_params') =
              create_default_params ixyz_eq (model self) (nuclei self) (temperature self)
                (h_larmor_frq self) (p_total self) (l_total self)
        in
        (case tie_r2 [''r2_i_b'', ''r2_i_c'', ''r2_i_d''] map_names' default_params' of
           Inl e \<Rightarrow> Inl e
         | Inr tied \<Rightarrow>
           Inr (cest_profile.extend self
                  (profile.fields time_d1' equilibrium' ixyz_eq liouvillians_b1' map_names'
                     tied))))))"

section \<open>Reading CPMG profiles\<close>

text \<open>
  String methods of Python on ASCII text: \<open>s.strip()\<close>, \<open>s.replace(a, b)\<close> for single
  characters, \<open>s.lower()\<close>, \<open>s.split(sep)\<close> for a one-character separator and
  \<open>sep.join(parts)\<close>; \<open>os.path.join\<close> of two parts on POSIX.
\<close>

definition is_space :: "char \<Rightarrow> bool" where
  "is_space c = (let n = (of_char c :: nat) in (9 \<le> n \<and> n \<le> 13) \<or> (28 \<le> n \<and> n \<le> 32))"

definition py_strip :: "string \<Rightarrow> string" where
  "py_strip s = rev (dropWhile is_space (rev (dropWhile is_space s)))"

definition py_replace :: "char \<Rightarrow> char \<Rightarrow> string \<Rightarrow> string" where
  "py_replace a b s = map (\<lambda>c. if c = a then b else c) s"

definition py_lower :: "string \<Rightarrow> string" where
  "py_lower s =
     map (\<lambda>c. let n = (of_char c :: nat) in if 65 \<le> n \<and> n \<le> 90 then char_of (n + 32) else c) s"

fun py_split :: "char \<Rightarrow> string \<Rightarrow> string list" where
  "py_split sep [] = [[]]"
| "py_split sep (c # cs) =
     (if c = sep then [] # py_split sep cs
      else (case py_split sep cs of [] \<Rightarrow> [[c]] | part # parts \<Rightarrow> (c # part) # parts))"

fun py_join :: "string \<Rightarrow> string list \<Rightarrow> string" where
  "py_join sep [] = []"
| "py_join sep [part] = part"
| "py_join sep (part # parts) = part @ sep @ py_join sep parts"

definition path_join :: "string \<Rightarrow> string \<Rightarrow> string" where
  "path_join a b =
     (if b \<noteq> [] \<and> hd b = CHR ''/'' then b
      else if a = [] \<or> last a = CHR ''/'' then a @ b
      else a @ ''/'' @ b)"

text \<open>
  What \<open>read_profiles\<close> takes from outside this file: \<open>np.loadtxt\<close> on a path, the
  \<open>Profile\<close> class of the module that \<open>importlib\<close> finds under a dotted name,
  \<open>util.estimate_noise\<close>, Python's \<open>float\<close> on a string, and the format \<open>{:.0f}\<close>. A
  measurement row is \<open>(ncycs, intensities, intensities_err)\<close>. The class found can be
  any profile class: the code reads only its \<open>val\<close> and \<open>err\<close>.
\<close>

type_synonym measurements = "(real \<times> real \<times> real) list"
type_synonym details = "string \<rightharpoonup> string"

record 'p reading_env =
  loadtxt :: "string \<Rightarrow> error + measurements"
  import_Profile ::
    "string \<Rightarrow> error + (string \<Rightarrow> measurements \<Rightarrow> details \<Rightarrow> error + 'p base_profile_scheme)"
  estimate_noise :: "'p base_profile_scheme \<Rightarrow> real"
  py_float :: "string \<Rightarrow> error + real"
  format_0f :: "real \<Rightarrow> string"

text \<open>
  \<open>name_experiment\<close>. Its argument is a dictionary here, for which the first two lines
  of the function change nothing (an empty dictionary is replaced by an empty one).
\<close>

definition name_experiment :: "'p reading_env \<Rightarrow> details \<Rightarrow> error + string" where
  "name_experiment env experiment_details =
     (case experiment_details ''name'' of
        Some name \<Rightarrow> Inr (py_replace CHR '' '' CHR ''_'' (py_strip name))
      | None \<Rightarrow>
     (case experiment_details ''type'' of
        None \<Rightarrow> Inl KeyError
      | Some ty \<Rightarrow>
        let exp_type = py_replace CHR ''.'' CHR ''_'' ty in
     (case experiment_details ''h_larmor_frq'' of
        None \<Rightarrow> Inl KeyError
      | Some h \<Rightarrow>
     (case py_float env h of
        Inl e \<Rightarrow> Inl e
      | Inr h_larmor_frq' \<Rightarrow>
     (case experiment_details ''temperature'' of
        None \<Rightarrow> Inl KeyError
      | Some t \<Rightarrow>
     (case py_float env t of
        Inl e \<Rightarrow> Inl e
      | Inr temperature' \<Rightarrow>
     (case experiment_details ''time_t2'' of
        None \<Rightarrow> Inl KeyError
      | Some t2 \<Rightarrow>
     (case py_float env t2 of
        Inl e \<Rightarrow> Inl e
      | Inr time_t2 \<Rightarrow>
        Inr (py_lower (exp_type @ ''_'' @ format_0f env (time_t2 * 1000) @ ''ms_''
               @ format_0f env h_larmor_frq' @ ''MHz_''
               @ format_0f env temperature' @ ''C''))))))))))"

text \<open>
  The truth value of \<open>res_incl\<close> and \<open>res_excl\<close> (\<open>None\<close> and the empty collection are
  false), membership in one of them (asked only when it is true), and the test of line 25.
\<close>

definition truthy :: "string list option \<Rightarrow> bool" where
  "truthy r = (case r of None \<Rightarrow> False | Some xs \<Rightarrow> xs \<noteq> [])"

definition contains :: "string list option \<Rightarrow> string \<Rightarrow> bool" where
  "contains r x = (case r of None \<Rightarrow> False | Some xs \<Rightarrow> List.member xs x)"

definition skipped :: "string list option \<Rightarrow> string list option \<Rightarrow> string \<Rightarrow> bool" where
  "skipped res_incl res_excl profile_name =
     ((truthy res_incl \<and> \<not> contains res_incl profile_name) \<or>
      (truthy res_excl \<and> contains res_excl profile_name))"

text \<open>
  The loop of lines 24 to 30 over \<open>profile_filenames.items()\<close>, in the dictionary's
  order.
\<close>

fun read_loop ::
  "'p reading_env \<Rightarrow> (string \<Rightarrow> measurements \<Rightarrow> details \<Rightarrow> error + 'p base_profile_scheme)
     \<Rightarrow> string \<Rightarrow> details \<Rightarrow> string list option \<Rightarrow> string list option
     \<Rightarrow> (string \<times> string) list \<Rightarrow> 'p base_profile_scheme list
     \<Rightarrow> error + 'p base_profile_scheme list"
where
  "read_loop env Profile path experiment_details res_incl res_excl [] profiles = Inr profiles"
| "read_loop env Profile path experiment_details res_incl res_excl
     ((profile_name, filename) # rest) profiles =
     (if skipped res_incl res_excl profile_name
      then read_loop env Profile path experiment_details res_incl res_excl rest profiles
      else
        let full_path = path_join path filename in
        (case loadtxt env full_path of
           Inl e \<Rightarrow> Inl e
         | Inr measurements \<Rightarrow>
           (case Profile profile_name measurements experiment_details of
              Inl e \<Rightarrow> Inl e
            | Inr profile \<Rightarrow>
              read_loop env Profile path experiment_details res_incl res_excl rest
                (profiles @ [profile]))))"

text \<open>
  \<open>np.mean\<close> of a list of floats (of a non-empty one: numpy returns NaN for the empty
  list, where this model has 0; the code then assigns it to no profile).
\<close>

definition np_mean :: "real list \<Rightarrow> real" where
  "np_mean xs = sum_list xs / real (length xs)"

text \<open>\<open>read_profiles\<close>. \<open>profile.err[:] = v\<close> overwrites every entry of the array.\<close>

definition read_profiles ::
  "'p reading_env \<Rightarrow> string \<Rightarrow> (string \<times> string) list \<Rightarrow> details
     \<Rightarrow> string list option \<Rightarrow> string list option
     \<Rightarrow> error + ('p base_profile_scheme list \<times> nat)"
where
  "read_profiles env path profile_filenames experiment_details res_incl res_excl =
     (case experiment_details ''type'' of
        None \<Rightarrow> Inl KeyError
      | Some ty \<Rightarrow>
        let experiment_type = py_split CHR ''.'' ty in
     (case name_experiment env experiment_details of
        Inl e \<Rightarrow> Inl e
      | Inr name \<Rightarrow>
        let experiment_details' = experiment_details(''name'' \<mapsto> name) in
     (if length experiment_type < 2 then Inl IndexError
      else
     (case import_Profile env
             (py_join ''.'' [''chemex.experiments'', experiment_type ! 0, ''profiles'',
                experiment_type ! 1]) of
        Inl e \<Rightarrow> Inl e
      | Inr Profile \<Rightarrow>
     (case read_loop env Profile path experiment_details' res_incl res_excl profile_filenames [] of
        Inl e \<Rightarrow> Inl e
      | Inr profiles \<Rightarrow>
        let error = (case experiment_details' ''error'' of None \<Rightarrow> ''file'' | Some v \<Rightarrow> v);
            profiles' =
              (if error = ''auto'' then
                 let error_value = np_mean (map (estimate_noise env) profiles)
                 in map (\<lambda>profile. profile\<lparr>err := replicate (length (err profile)) error_value\<rparr>)
                      profiles
               else profiles);
            ndata = sum_list (map (\<lambda>profile. length (val profile)) profiles')
        in Inr (profiles', ndata))))))"

section \<open>Notions used in the statements\<close>

text \<open>
  The exception that the calls into \<open>scipy.linalg\<close> raise for a stack of Liouvillians, if
  any: in the ideal regime from \<open>eig\<close> of the first Liouvillian or from \<open>inv\<close> of its
  eigenvector matrix, in the averaging regime from the first \<open>expm\<close> that fails.
\<close>

definition linalg_error :: "linalg \<Rightarrow> nat \<Rightarrow> real \<Rightarrow> bool \<Rightarrow> mat list \<Rightarrow> error option" where
  "linalg_error la n t ideal liouvillians =
     (if ideal then
        (case liouvillians of
           [] \<Rightarrow> None
         | liouvillian0 # _ \<Rightarrow>
           (case linalg_eig la n liouvillian0 of
              Inl e \<Rightarrow> Some e
            | Inr (s, vr) \<Rightarrow> (case linalg_inv la n vr of Inl e \<Rightarrow> Some e | Inr _ \<Rightarrow> None)))
      else
        (case map_err (\<lambda>liouvillian. linalg_expm la n (mscale liouvillian t)) liouvillians of
           Inl e \<Rightarrow> Some e
         | Inr _ \<Rightarrow> None))"

section \<open>A worked example\<close>

text \<open>
  A two-dimensional basis whose Liouvillian is the lower triangular matrix with the rows
  \<open>(0, 0)\<close> and \<open>(-\<i>, \<i>)\<close>, and a profile over it in the ideal regime, with four
  measurements at the offsets 250, 290, 310 and 1000 Hz, whose minor state resonates at
  300 Hz for a chemical shift of 1 ppm; a second profile with one measurement exactly
  25 Hz from that resonance; a third in the finite-field regime with two field values,
  two different field-dependent Liouvillians and weights that do not sum to 1; a fourth whose Liouvillian depends on the offset of
  state A from the irradiation frequency. The stand-in for \<open>scipy.linalg\<close> is exact on the
  matrices of the example: eigenvalues and eigenvectors of a lower triangular 2 by 2
  matrix with distinct diagonal entries, the inverse of a unit lower triangular one, and
  the exponential of a lower triangular one whose first diagonal entry is 0 and whose
  second is not.
\<close>

definition demo_basis :: basis where
  "demo_basis =
     \<lparr>dim = 2,
      compute_liouvillian =
        (\<lambda>kw i j. if i = 1 \<and> j = 0 then - \<i> else if i = 1 \<and> j = 1 then \<i> else 0),
      compute_equilibrium_after_d1 = (\<lambda>kw i. 1),
      create_default_params = (\<lambda>m nuc t h p l. (Map.empty, Map.empty)),
      index_iz_eq = [0],
      index_iz_b = [1]\<rparr>"

definition demo_profile :: profile where
  "demo_profile =
     \<lparr>profile_id = ''G23N-HN'', val = [0.9, 0.5, 0.6, 1.0], err = [0.1, 0.1, 0.1, 0.1],
      b1_offsets = [250, 290, 310, 1000], reference = [False, False, False, False],
      carrier = 0, ppm_i = 600 * pi, on_resonance_filter = 50, time_t1 = 1,
      b1_inh = PosInf, b1_weights = [1], omega1s = [0], model = ''2st.pb_kex'',
      nuclei = ''N'', temperature = 25, h_larmor_frq = 600, p_total = None, l_total = None,
      time_d1 = 1, equilibrium = False, base = demo_basis, liouvillians_b1 = [\<lambda>i j. 0],
      map_names = [''cs_i_b'' \<mapsto> ''G23N_cs_b''], default_params = Map.empty\<rparr>"

definition demo_params :: "string \<rightharpoonup> param" where
  "demo_params = [''G23N_cs_b'' \<mapsto> \<lparr>pvalue = 1, vary = True, expr = None\<rparr>]"

definition boundary_profile :: profile where
  "boundary_profile =
     demo_profile\<lparr>b1_offsets := [275], val := [0.7], err := [0.1], reference := [True]\<rparr>"

definition demo_linalg :: linalg where
  "demo_linalg =
     \<lparr>linalg_eig =
        (\<lambda>n a. Inr ((\<lambda>k. a k k),
                     (\<lambda>i j. if i = j then 1
                            else if i = 1 \<and> j = 0 then a 1 0 / (a 0 0 - a 1 1) else 0))),
      linalg_inv =
        (\<lambda>n v. Inr (\<lambda>i j. if i = j then 1 else if i = 1 \<and> j = 0 then - v 1 0 else 0)),
      linalg_expm =
        (\<lambda>n a. Inr (\<lambda>i j. if i = j then exp (a i i)
                          else if i = 1 \<and> j = 0 then a 1 0 / a 1 1 * (exp (a 1 1) - 1)
                          else 0))\<rparr>"

definition finite_profile :: profile where
  "finite_profile =
     demo_profile\<lparr>b1_inh := Finite 0.1, b1_weights := [1, 3], omega1s := [0, 1],
                    liouvillians_b1 := [\<lambda>i j. 0, \<lambda>i j. if i = 1 \<and> j = 1 then \<i> else 0]\<rparr>"

definition single_field_profile :: profile where
  "single_field_profile = demo_profile\<lparr>b1_inh := Finite 0.1\<rparr>"

definition offset_basis :: basis where
  "offset_basis =
     demo_basis\<lparr>compute_liouvillian :=
       (\<lambda>kw i j.
          if i = 1 \<and> j = 0
          then - \<i> * complex_of_real ((case kw ''omega_i_a'' of None \<Rightarrow> 0 | Some om \<Rightarrow> om) / (2 * pi))
          else if i = 1 \<and> j = 1 then \<i> else 0)\<rparr>"

definition offset_profile :: profile where
  "offset_profile = demo_profile\<lparr>base := offset_basis\<rparr>"

definition failing_linalg :: linalg where
  "failing_linalg = demo_linalg\<lparr>linalg_inv := (\<lambda>n v. Inl LinAlgError)\<rparr>"

text \<open>
  Three candidate bases for the construction of a profile, of different sizes; the
  three-state one names the transverse relaxation rates of its states. A parent
  constructor that takes the model from the experiment details, and a \<open>check_par\<close> that
  returns the default.
\<close>

definition free_param :: "real \<Rightarrow> param" where
  "free_param v = \<lparr>pvalue = v, vary = True, expr = None\<rparr>"

definition three_state_basis :: basis where
  "three_state_basis =
     demo_basis\<lparr>dim := 3,
       create_default_params :=
         (\<lambda>m nuc t h p l.
            ([''r2_i_a'' \<mapsto> ''r2_a'', ''r2_i_b'' \<mapsto> ''r2_b'', ''r2_i_c'' \<mapsto> ''r2_c'',
              ''cs_i_b'' \<mapsto> ''cs_b''],
             [''r2_a'' \<mapsto> free_param 10, ''r2_b'' \<mapsto> free_param 10,
              ''r2_c'' \<mapsto> free_param 10, ''cs_b'' \<mapsto> free_param 1]))\<rparr>"

definition four_state_basis :: basis where
  "four_state_basis = demo_basis\<lparr>dim := 4\<rparr>"

definition demo_super_init :: "string \<Rightarrow> unit \<Rightarrow> (string \<rightharpoonup> string) \<Rightarrow> error + cest_profile" where
  "demo_super_init name measurements exp_details =
     (case exp_details ''model'' of
        None \<Rightarrow> Inl KeyError
      | Some m \<Rightarrow> Inr (cest_profile.truncate (demo_profile\<lparr>profile_id := name, model := m\<rparr>)))"

definition demo_check_par :: "(string \<rightharpoonup> string) \<Rightarrow> string \<Rightarrow> 'a \<Rightarrow> error + 'a" where
  "demo_check_par exp_details key dflt = Inr dflt"

text \<open>
  Two CPMG data files, a profile class that keeps the intensity and uncertainty columns,
  a noise estimate (the mean uncertainty of a profile), and experiment details that ask
  for the automatic uncertainty.
\<close>

definition demo_Profile ::
  "string \<Rightarrow> measurements \<Rightarrow> details \<Rightarrow> error + base_profile"
where
  "demo_Profile name measurements experiment_details =
     Inr \<lparr>profile_id = name, val = map (\<lambda>(ncyc, v, e). v) measurements,
          err = map (\<lambda>(ncyc, v, e). e) measurements\<rparr>"

definition demo_env :: "unit reading_env" where
  "demo_env =
     \<lparr>loadtxt =
        (\<lambda>path. if path = ''data/g23.out'' then Inr [(0, 1.0, 0.1), (10, 0.8, 0.2)]
               else if path = ''data/l24.out'' then Inr [(0, 1.0, 0.3)]
               else Inl OSError),
      import_Profile =
        (\<lambda>module. if module = ''chemex.experiments.cpmg.profiles.n15'' then Inr demo_Profile
                 else Inl ImportError),
      estimate_noise = (\<lambda>profile. np_mean (err profile)),
      py_float = (\<lambda>s. if s = ''600'' then Inr 600 else Inl ValueError),
      format_0f = (\<lambda>x. ''0'')\<rparr>"

definition demo_details :: details where
  "demo_details = [''type'' \<mapsto> ''cpmg.n15'', ''name'' \<mapsto> ''run 1'', ''error'' \<mapsto> ''auto'']"

section \<open>Properties of the data-selection filter\<close>

text \<open>
  Selecting by a mask that is computed from a list of keys: the lemmas below move the
  selection through \<open>zip\<close>, so that selecting four arrays by one mask is selecting
  their tuples.
\<close>

lemma select_map:
  "length a = length ks \<Longrightarrow>
   map fst (filter snd (zip a (map P ks))) = map fst (filter (\<lambda>xk. P (snd xk)) (zip a ks))"
  by (induction a ks rule: list_induct2) auto

lemma select_zip:
  "length xs = length ys \<Longrightarrow> length ys = length ks \<Longrightarrow>
   zip (map fst (filter (\<lambda>xk. P (snd xk)) (zip xs ks))) (map fst (filter (\<lambda>xk. P (snd xk)) (zip ys ks)))
   = map fst (filter (\<lambda>xk. P (snd xk)) (zip (zip xs ys) ks))"
  by (induction xs ys ks rule: list_induct3) auto

lemma select_self:
  "length ys = length xs \<Longrightarrow>
   map fst (filter (\<lambda>xk. P (snd xk)) (zip (zip xs ys) xs)) = filter (\<lambda>xy. P (fst xy)) (zip xs ys)"
  by (induction ys xs rule: list_induct2) auto

lemma select_keys:
  "map fst (filter (\<lambda>xk. P (snd xk)) (zip xs xs)) = filter P xs"
  by (induction xs) auto

lemma mask_index_map:
  "length a = length ks \<Longrightarrow>
   mask_index a (map P ks) = Inr (map fst (filter (\<lambda>xk. P (snd xk)) (zip a ks)))"
  by (simp add: mask_index_def select_map)

lemma mask_index_keys:
  "mask_index ks (map P ks) = Inr (filter P ks)"
  by (simp add: mask_index_def select_map select_keys)

lemma mask_index_Inr:
  "mask_index a m = Inr a' \<Longrightarrow>
   (m = [] \<or> length m = length a) \<and> a' = map fst (filter snd (zip a m))"
  by (auto simp: mask_index_def split: if_splits)

lemma filter_points_mask:
  "map (\<lambda>nu. \<bar>nu\<bar> > on_resonance_filter self * 0.5)
     (map (\<lambda>b1. (cs - carrier self) * ppm_i self / (2.0 * pi) - b1) (b1_offsets self))
   = map (\<lambda>b1. on_resonance_filter self / 2 < separation self cs b1) (b1_offsets self)"
  by (simp add: separation_def)

lemma filter_points_ok:
  assumes "map_names self ''cs_i_b'' = Some full" and "ps full = Some par"
    and "same_lengths self"
  shows "filter_points self (Some ps) =
     Inr (self\<lparr>b1_offsets := filter (\<lambda>b1. on_resonance_filter self / 2 < separation self (pvalue par) b1) (b1_offsets self),
            val := map fst (filter (\<lambda>xk. on_resonance_filter self / 2 < separation self (pvalue par) (snd xk)) (zip (val self) (b1_offsets self))),
            err := map fst (filter (\<lambda>xk. on_resonance_filter self / 2 < separation self (pvalue par) (snd xk)) (zip (err self) (b1_offsets self))),
            reference := map fst (filter (\<lambda>xk. on_resonance_filter self / 2 < separation self (pvalue par) (snd xk)) (zip (reference self) (b1_offsets self)))\<rparr>)"
  using assms unfolding filter_points_def Let_def filter_points_mask same_lengths_def
  by (simp add: mask_index_map mask_index_keys)


lemma length_select:
  "length xs = length ks \<Longrightarrow>
   length (filter (\<lambda>xk. P (snd xk)) (zip xs ks)) = length (filter P ks)"
  by (induction xs ks rule: list_induct2) auto

lemma select_select:
  "length xs = length ks \<Longrightarrow>
   map fst (filter (\<lambda>xk. P (snd xk)) (zip (map fst (filter (\<lambda>xk. P (snd xk)) (zip xs ks))) (filter P ks)))
   = map fst (filter (\<lambda>xk. P (snd xk)) (zip xs ks))"
  by (induction xs ks rule: list_induct2) auto

lemma points_select:
  assumes "length vs = length ks" "length es = length ks" "length rs = length ks"
  shows "zip (filter P ks)
           (zip (map fst (filter (\<lambda>xk. P (snd xk)) (zip vs ks)))
              (zip (map fst (filter (\<lambda>xk. P (snd xk)) (zip es ks)))
                 (map fst (filter (\<lambda>xk. P (snd xk)) (zip rs ks)))))
         = filter (\<lambda>t. P (fst t)) (zip ks (zip vs (zip es rs)))"
proof -
  have 1: "zip (map fst (filter (\<lambda>xk. P (snd xk)) (zip es ks)))
             (map fst (filter (\<lambda>xk. P (snd xk)) (zip rs ks)))
           = map fst (filter (\<lambda>xk. P (snd xk)) (zip (zip es rs) ks))"
    using assms by (simp add: select_zip)
  have 2: "zip (map fst (filter (\<lambda>xk. P (snd xk)) (zip vs ks)))
             (map fst (filter (\<lambda>xk. P (snd xk)) (zip (zip es rs) ks)))
           = map fst (filter (\<lambda>xk. P (snd xk)) (zip (zip vs (zip es rs)) ks))"
    using assms by (simp add: select_zip)
  have 3: "filter P ks = map fst (filter (\<lambda>xk. P (snd xk)) (zip ks ks))"
    by (simp add: select_keys)
  have 4: "zip (map fst (filter (\<lambda>xk. P (snd xk)) (zip ks ks)))
             (map fst (filter (\<lambda>xk. P (snd xk)) (zip (zip vs (zip es rs)) ks)))
           = map fst (filter (\<lambda>xk. P (snd xk)) (zip (zip ks (zip vs (zip es rs))) ks))"
    using assms by (simp add: select_zip)
  have 5: "map fst (filter (\<lambda>xk. P (snd xk)) (zip (zip ks (zip vs (zip es rs))) ks))
           = filter (\<lambda>t. P (fst t)) (zip ks (zip vs (zip es rs)))"
    using assms by (simp add: select_self)
  show ?thesis
    unfolding 1 2 by (subst 3) (simp only: 4 5)
qed

lemma filter_points_Inr:
  assumes "filter_points self params = Inr self'"
  shows "\<exists>full ps par. map_names self ''cs_i_b'' = Some full \<and> params = Some ps \<and>
           ps full = Some par \<and> (b1_offsets self = [] \<or> same_lengths self)"
  using assms unfolding filter_points_def Let_def same_lengths_def
  by (auto split: option.splits sum.splits dest!: mask_index_Inr)

text \<open>
  Claim C3, as amended. When the name \<open>cs_i_b\<close> and its parameter are found and the four
  arrays have one length, \<open>filter_points\<close> returns, and the measurements it retains are
  exactly those whose absolute separation in Hz from the minor state's resonance is
  strictly greater than half of \<open>on_resonance_filter\<close>, in their order; a point at
  exactly half the threshold is excluded with the nearer ones. In the scenario (threshold
  50 Hz, resonance at 300 Hz, offsets 250, 290, 310 and 1000 Hz) the points at 290 and
  310 are removed and those at 250 and 1000 are kept, in all four arrays.
\<close>

theorem filter_points_keeps_beyond_half_threshold:
  assumes "map_names self ''cs_i_b'' = Some full" and "ps full = Some par"
    and "same_lengths self"
  shows "\<exists>self'. filter_points self (Some ps) = Inr self' \<and>
           points self' =
             filter (\<lambda>(b1, v, e, r). separation self (pvalue par) b1 > on_resonance_filter self * 0.5)
               (points self) \<and>
           (on_resonance_filter self = 50 \<and>
            (pvalue par - carrier self) * ppm_i self / (2 * pi) = 300 \<and>
            b1_offsets self = [250, 290, 310, 1000]
            \<longrightarrow> b1_offsets self' = [250, 1000] \<and> val self' = [val self ! 0, val self ! 3]
                \<and> err self' = [err self ! 0, err self ! 3]
                \<and> reference self' = [reference self ! 0, reference self ! 3])"
proof -
  let ?P = "\<lambda>b1. on_resonance_filter self / 2 < separation self (pvalue par) b1"
  let ?self' = "self\<lparr>b1_offsets := filter ?P (b1_offsets self),
            val := map fst (filter (\<lambda>xk. ?P (snd xk)) (zip (val self) (b1_offsets self))),
            err := map fst (filter (\<lambda>xk. ?P (snd xk)) (zip (err self) (b1_offsets self))),
            reference := map fst (filter (\<lambda>xk. ?P (snd xk)) (zip (reference self) (b1_offsets self)))\<rparr>"
  have ok: "filter_points self (Some ps) = Inr ?self'"
    using filter_points_ok [of self full ps par] assms by simp
  have len: "length (val self) = length (b1_offsets self)"
    "length (err self) = length (b1_offsets self)"
    "length (reference self) = length (b1_offsets self)"
    using assms(3) by (simp_all add: same_lengths_def)
  have pts: "points ?self' = filter (\<lambda>t. ?P (fst t)) (points self)"
    unfolding points_def using points_select [OF len, of ?P] by simp
  have pred: "(\<lambda>t. ?P (fst t)) =
      (\<lambda>(b1, v, e, r). separation self (pvalue par) b1 > on_resonance_filter self * 0.5)"
    by (auto simp: fun_eq_iff)
  have scen: "b1_offsets ?self' = [250, 1000] \<and> val ?self' = [val self ! 0, val self ! 3]
                \<and> err ?self' = [err self ! 0, err self ! 3]
                \<and> reference ?self' = [reference self ! 0, reference self ! 3]"
    if a: "on_resonance_filter self = 50"
      and b: "(pvalue par - carrier self) * ppm_i self / (2 * pi) = 300"
      and c: "b1_offsets self = [250, 290, 310, 1000]"
  proof -
    obtain v0 v1 v2 v3 where v: "val self = [v0, v1, v2, v3]"
      using len(1) c by (auto simp: length_Suc_conv)
    obtain e0 e1 e2 e3 where e: "err self = [e0, e1, e2, e3]"
      using len(2) c by (auto simp: length_Suc_conv)
    obtain r0 r1 r2 r3 where r: "reference self = [r0, r1, r2, r3]"
      using len(3) c by (auto simp: length_Suc_conv)
    show ?thesis
      by (simp add: separation_def a b c v e r)
  qed
  show ?thesis
    using ok pts scen unfolding pred by blast
qed


text \<open>The scenario itself, on the example profile.\<close>

theorem filter_points_scenario_witness:
  "\<exists>self'. filter_points demo_profile (Some demo_params) = Inr self' \<and>
     b1_offsets self' = [250, 1000] \<and> val self' = [0.9, 1.0] \<and> err self' = [0.1, 0.1] \<and>
     reference self' = [False, False]"
  using filter_points_keeps_beyond_half_threshold
    [of demo_profile "''G23N_cs_b''" demo_params "\<lparr>pvalue = 1, vary = True, expr = None\<rparr>"]
  by (auto simp add: demo_profile_def demo_params_def same_lengths_def)

text \<open>
  Claim C3 as it was stated fails at the boundary: a point whose separation is exactly
  half the threshold (25 Hz for a threshold of 50 Hz) is not smaller than half the
  threshold, and the filter removes it.
\<close>

theorem filter_points_boundary_counterexample:
  "separation boundary_profile 1 275 = 25 \<and>
   \<not> separation boundary_profile 1 275 < on_resonance_filter boundary_profile * 0.5 \<and>
   filter_points boundary_profile (Some demo_params) =
     Inr (boundary_profile\<lparr>b1_offsets := [], val := [], err := [], reference := []\<rparr>)"
  by (simp add: separation_def boundary_profile_def demo_profile_def demo_params_def
      filter_points_def mask_index_def)

lemma filter_points_ok_abs:
  assumes "map_names self ''cs_i_b'' = Some full" and "ps full = Some par"
    and "same_lengths self"
    and "P = (\<lambda>b1. on_resonance_filter self / 2 < separation self (pvalue par) b1)"
  shows "filter_points self (Some ps) =
     Inr (self\<lparr>b1_offsets := filter P (b1_offsets self),
            val := map fst (filter (\<lambda>xk. P (snd xk)) (zip (val self) (b1_offsets self))),
            err := map fst (filter (\<lambda>xk. P (snd xk)) (zip (err self) (b1_offsets self))),
            reference := map fst (filter (\<lambda>xk. P (snd xk)) (zip (reference self) (b1_offsets self)))\<rparr>)"
  unfolding assms(4) using filter_points_ok [of self full ps par] assms(1-3) by simp

lemma filter_points_twice_same_lengths:
  assumes ret: "filter_points self params = Inr self'"
    and look: "map_names self ''cs_i_b'' = Some full" "params = Some ps" "ps full = Some par"
    and same: "same_lengths self"
  shows "filter_points self' params = Inr self' \<and>
         same_lengths self' \<and>
         (\<exists>msk. length msk = length (b1_offsets self) \<and>
            mask_index (b1_offsets self) msk = Inr (b1_offsets self') \<and>
            mask_index (val self) msk = Inr (val self') \<and>
            mask_index (err self) msk = Inr (err self') \<and>
            mask_index (reference self) msk = Inr (reference self') \<and>
            mask_index (points self) msk = Inr (points self'))"
proof -
  define P where "P = (\<lambda>b1. on_resonance_filter self / 2 < separation self (pvalue par) b1)"
  let ?ks = "b1_offsets self"
  have len: "length (val self) = length ?ks" "length (err self) = length ?ks"
    "length (reference self) = length ?ks"
    using same by (simp_all add: same_lengths_def)
  have self': "self' = self\<lparr>b1_offsets := filter P ?ks,
            val := map fst (filter (\<lambda>xk. P (snd xk)) (zip (val self) ?ks)),
            err := map fst (filter (\<lambda>xk. P (snd xk)) (zip (err self) ?ks)),
            reference := map fst (filter (\<lambda>xk. P (snd xk)) (zip (reference self) ?ks))\<rparr>"
    using filter_points_ok_abs [of self full ps par P] look same P_def ret by simp
  have fields: "b1_offsets self' = filter P ?ks"
    "val self' = map fst (filter (\<lambda>xk. P (snd xk)) (zip (val self) ?ks))"
    "err self' = map fst (filter (\<lambda>xk. P (snd xk)) (zip (err self) ?ks))"
    "reference self' = map fst (filter (\<lambda>xk. P (snd xk)) (zip (reference self) ?ks))"
    by (simp_all add: self')
  have P': "P = (\<lambda>b1. on_resonance_filter self' / 2 < separation self' (pvalue par) b1)"
    by (simp add: P_def self' separation_def)
  have same': "same_lengths self'"
    unfolding same_lengths_def fields using len by (simp add: length_select)
  have look': "map_names self' ''cs_i_b'' = Some full"
    using look(1) by (simp add: self')
  have again: "filter_points self' (Some ps) =
     Inr (self'\<lparr>b1_offsets := filter P (b1_offsets self'),
            val := map fst (filter (\<lambda>xk. P (snd xk)) (zip (val self') (b1_offsets self'))),
            err := map fst (filter (\<lambda>xk. P (snd xk)) (zip (err self') (b1_offsets self'))),
            reference := map fst (filter (\<lambda>xk. P (snd xk)) (zip (reference self') (b1_offsets self')))\<rparr>)"
    using filter_points_ok_abs [of self' full ps par P] look' look(3) same' P' by blast
  have fix1: "filter P (b1_offsets self') = b1_offsets self'"
    unfolding fields by simp
  have fix2: "map fst (filter (\<lambda>xk. P (snd xk)) (zip (val self') (b1_offsets self'))) = val self'"
    unfolding fields using len by (simp only: select_select)
  have fix3: "map fst (filter (\<lambda>xk. P (snd xk)) (zip (err self') (b1_offsets self'))) = err self'"
    unfolding fields using len by (simp only: select_select)
  have fix4: "map fst (filter (\<lambda>xk. P (snd xk)) (zip (reference self') (b1_offsets self')))
      = reference self'"
    unfolding fields using len by (simp only: select_select)
  have idem: "filter_points self' params = Inr self'"
    unfolding look(2) again fix1 fix2 fix3 fix4 by simp
  let ?msk = "map P ?ks"
  have lp: "length (points self) = length ?ks"
    using len by (simp add: points_def)
  have pts: "points self' = map fst (filter (\<lambda>xk. P (snd xk)) (zip (points self) ?ks))"
  proof -
    have "points self' = filter (\<lambda>t. P (fst t)) (points self)"
      unfolding points_def fields using points_select [OF len, of P] by simp
    also have "\<dots> = map fst (filter (\<lambda>xk. P (snd xk)) (zip (points self) ?ks))"
      unfolding points_def using len by (simp only: select_self length_zip min.idem)
    finally show ?thesis .
  qed
  have m: "mask_index (b1_offsets self) ?msk = Inr (b1_offsets self')"
    "mask_index (val self) ?msk = Inr (val self')"
    "mask_index (err self) ?msk = Inr (err self')"
    "mask_index (reference self) ?msk = Inr (reference self')"
    "mask_index (points self) ?msk = Inr (points self')"
    unfolding fields pts using len lp
    by (simp_all only: mask_index_keys mask_index_map)
  have "length ?msk = length ?ks" by simp
  with m idem same' show ?thesis by blast
qed


lemma filter_points_twice_empty:
  assumes ret: "filter_points self params = Inr self'"
    and look: "map_names self ''cs_i_b'' = Some full" "params = Some ps" "ps full = Some par"
    and empty: "b1_offsets self = []"
  shows "filter_points self' params = Inr self' \<and>
         same_lengths self' \<and>
         (\<exists>msk. length msk = length (b1_offsets self) \<and>
            mask_index (b1_offsets self) msk = Inr (b1_offsets self') \<and>
            mask_index (val self) msk = Inr (val self') \<and>
            mask_index (err self) msk = Inr (err self') \<and>
            mask_index (reference self) msk = Inr (reference self') \<and>
            mask_index (points self) msk = Inr (points self'))"
proof -
  have self': "self' = self\<lparr>b1_offsets := [], val := [], err := [], reference := []\<rparr>"
    using ret look empty by (simp add: filter_points_def mask_index_def)
  have again: "filter_points self' params = Inr self'"
    unfolding self' using look by (simp add: filter_points_def mask_index_def)
  have same': "same_lengths self'"
    by (simp add: self' same_lengths_def)
  have m: "length ([] :: bool list) = length (b1_offsets self)"
    "mask_index (b1_offsets self) [] = Inr (b1_offsets self')"
    "mask_index (val self) [] = Inr (val self')"
    "mask_index (err self) [] = Inr (err self')"
    "mask_index (reference self) [] = Inr (reference self')"
    "mask_index (points self) [] = Inr (points self')"
    by (simp_all add: self' empty mask_index_def points_def)
  from again same' m show ?thesis by blast
qed

text \<open>
  Claim C4. Whenever \<open>filter_points\<close> returns, applying it again with the same parameters
  returns the same profile; the four arrays of the result have one length; and one mask,
  as long as the array of offsets was, selects each of the four arrays, hence also the list
  of measurement tuples: index \<open>i\<close> of every array of the result is the same measurement.
\<close>

theorem filter_points_idempotent_coindexed:
  assumes "filter_points self params = Inr self'"
  shows "filter_points self' params = Inr self' \<and>
         same_lengths self' \<and>
         (\<exists>msk. length msk = length (b1_offsets self) \<and>
            mask_index (b1_offsets self) msk = Inr (b1_offsets self') \<and>
            mask_index (val self) msk = Inr (val self') \<and>
            mask_index (err self) msk = Inr (err self') \<and>
            mask_index (reference self) msk = Inr (reference self') \<and>
            mask_index (points self) msk = Inr (points self'))"
proof -
  obtain full ps par where look: "map_names self ''cs_i_b'' = Some full" "params = Some ps"
    "ps full = Some par" and shape: "b1_offsets self = [] \<or> same_lengths self"
    using filter_points_Inr [OF assms] by blast
  from shape show ?thesis
  proof
    assume "b1_offsets self = []"
    then show ?thesis
      by (rule filter_points_twice_empty [OF assms look])
  next
    assume "same_lengths self"
    then show ?thesis
      by (rule filter_points_twice_same_lengths [OF assms look])
  qed
qed

text \<open>On the example profile: the first application keeps two points, the second keeps both.\<close>

theorem filter_points_idempotent_witness:
  "filter_points demo_profile (Some demo_params) =
     Inr (demo_profile\<lparr>b1_offsets := [250, 1000], val := [0.9, 1.0], err := [0.1, 0.1],
            reference := [False, False]\<rparr>) \<and>
   filter_points (demo_profile\<lparr>b1_offsets := [250, 1000], val := [0.9, 1.0], err := [0.1, 0.1],
            reference := [False, False]\<rparr>) (Some demo_params) =
     Inr (demo_profile\<lparr>b1_offsets := [250, 1000], val := [0.9, 1.0], err := [0.1, 0.1],
            reference := [False, False]\<rparr>)"
proof -
  have once: "filter_points demo_profile (Some demo_params) =
     Inr (demo_profile\<lparr>b1_offsets := [250, 1000], val := [0.9, 1.0], err := [0.1, 0.1],
            reference := [False, False]\<rparr>)"
    by (simp add: demo_profile_def demo_params_def filter_points_def mask_index_def)
  from filter_points_idempotent_coindexed [OF once] once show ?thesis by blast
qed

section \<open>Properties of the propagator\<close>

text \<open>
  The product of the three blocks of the ideal regime, entry by entry: multiplying by the
  diagonal array scales the columns, and the product with the right block sums over the
  selected eigenmodes. The selected indices are distinct, so the sum over their list is
  the sum over their set.
\<close>

lemma sum_list_map2_nth:
  "length xs = length ys \<Longrightarrow>
   sum_list (map2 f xs ys) = (\<Sum>p = 0..<length xs. f (xs ! p) (ys ! p))"
proof -
  assume l: "length xs = length ys"
  have "sum_list (map2 f xs ys) = (\<Sum>p = 0..<length (map2 f xs ys). map2 f xs ys ! p)"
    by (rule sum_list_sum_nth)
  also have "\<dots> = (\<Sum>p = 0..<length xs. f (xs ! p) (ys ! p))"
    using l by (intro sum.cong) auto
  finally show ?thesis .
qed

lemma dot_diag_entry:
  assumes "length ra = length d" and "j < length d"
  shows "sum_list (map2 (\<lambda>x rb. x * rb ! j) ra (rows (diag d))) = ra ! j * d ! j"
proof -
  let ?m = "length d"
  have len: "length ra = length (rows (diag d))"
    using assms by (simp add: diag_def)
  have "sum_list (map2 (\<lambda>x rb. x * rb ! j) ra (rows (diag d)))
        = (\<Sum>p = 0..<length ra. ra ! p * (rows (diag d) ! p) ! j)"
    by (rule sum_list_map2_nth [OF len])
  also have "\<dots> = (\<Sum>p = 0..<?m. ra ! p * (if p = j then d ! p else 0))"
    using assms by (intro sum.cong) (auto simp: diag_def)
  also have "\<dots> = (\<Sum>p \<in> {0..<?m}. if p = j then ra ! p * d ! p else 0)"
    by (intro sum.cong) auto
  also have "\<dots> = ra ! j * d ! j"
    using assms by simp
  finally show ?thesis .
qed

lemma dot_diag_rows:
  assumes "\<forall>ra \<in> set (rows a). length ra = length d" 
  shows "rows (dot a (diag d)) = map (\<lambda>ra. map2 (\<lambda>x y. x * y) ra d) (rows a)"
proof -
  have "map (\<lambda>j. sum_list (map2 (\<lambda>x rb. x * rb ! j) ra (rows (diag d)))) [0..<length d]
        = map2 (\<lambda>x y. x * y) ra d" if "length ra = length d" for ra
    using that by (auto intro!: nth_equalityI simp: dot_diag_entry)
  then show ?thesis
    using assms by (simp add: dot_def diag_def)
qed

lemma dot_block_rows:
  "rows (dot \<lparr>nrows = r, ncols = length sl, rows = map (\<lambda>i. map (\<lambda>k. g i k) sl) idx\<rparr>
            \<lparr>nrows = length sl, ncols = length cs, rows = map (\<lambda>k. map (\<lambda>j. h k j) cs) sl\<rparr>)
   = map (\<lambda>i. map (\<lambda>j. sum_list (map (\<lambda>k. g i k * h k j) sl)) cs) idx"
proof -
  have inner: "sum_list (map2 (\<lambda>x rb. x * rb ! j) (map (\<lambda>k. g i k) sl) (map (\<lambda>k. map (\<lambda>j. h k j) cs) sl))
        = sum_list (map (\<lambda>k. g i k * h k (cs ! j)) sl)" if "j < length cs" for i j
    using that by (simp add: zip_map_map o_def split_def zip_same_conv_map)
  have "map (\<lambda>j. sum_list (map2 (\<lambda>x rb. x * rb ! j) (map (\<lambda>k. g i k) sl) (map (\<lambda>k. map (\<lambda>j. h k j) cs) sl))) [0..<length cs]
        = map (\<lambda>j. sum_list (map (\<lambda>k. g i k * h k j) sl)) cs" for i
    by (auto intro!: nth_equalityI simp: inner)
  then show ?thesis
    by (simp add: dot_def o_def)
qed


lemma dot_diag_block:
  "dot \<lparr>nrows = r, ncols = length sl, rows = map (\<lambda>i. map (\<lambda>k. g i k) sl) idx\<rparr>
       (diag (map f sl))
   = \<lparr>nrows = r, ncols = length sl, rows = map (\<lambda>i. map (\<lambda>k. g i k * f k) sl) idx\<rparr>"
proof -
  let ?a = "\<lparr>nrows = r, ncols = length sl, rows = map (\<lambda>i. map (\<lambda>k. g i k) sl) idx\<rparr>"
  have "rows (dot ?a (diag (map f sl))) = map (\<lambda>ra. map2 (\<lambda>x y. x * y) ra (map f sl)) (rows ?a)"
    by (rule dot_diag_rows) simp
  also have "\<dots> = map (\<lambda>i. map (\<lambda>k. g i k * f k) sl) idx"
    by (simp add: zip_map_map o_def split_def zip_same_conv_map)
  finally have "rows (dot ?a (diag (map f sl))) = map (\<lambda>i. map (\<lambda>k. g i k * f k) sl) idx" .
  moreover have "nrows (dot ?a (diag (map f sl))) = r" "ncols (dot ?a (diag (map f sl))) = length sl"
    by (simp_all add: dot_def diag_def)
  ultimately show ?thesis by simp
qed

lemma dot_block:
  "dot \<lparr>nrows = r, ncols = length sl, rows = map (\<lambda>i. map (\<lambda>k. g i k) sl) idx\<rparr>
       \<lparr>nrows = length sl, ncols = length cs, rows = map (\<lambda>k. map (\<lambda>j. h k j) cs) sl\<rparr>
   = \<lparr>nrows = r, ncols = length cs,
      rows = map (\<lambda>i. map (\<lambda>j. sum_list (map (\<lambda>k. g i k * h k j) sl)) cs) idx\<rparr>"
proof -
  let ?d = "dot \<lparr>nrows = r, ncols = length sl, rows = map (\<lambda>i. map (\<lambda>k. g i k) sl) idx\<rparr>
       \<lparr>nrows = length sl, ncols = length cs, rows = map (\<lambda>k. map (\<lambda>j. h k j) cs) sl\<rparr>"
  have "rows ?d = map (\<lambda>i. map (\<lambda>j. sum_list (map (\<lambda>k. g i k * h k j) sl)) cs) idx"
    by (rule dot_block_rows)
  moreover have "nrows ?d = r" "ncols ?d = length cs"
    by (simp_all add: dot_def)
  ultimately show ?thesis by simp
qed

lemma sum_list_filter_upt:
  "sum_list (map g (filter P [0..<n])) = (\<Sum>k \<in> {k. k < n \<and> P k}. g k)"
proof -
  have "sum_list (map g (filter P [0..<n])) = sum g (set (filter P [0..<n]))"
    by (rule sum_list_distinct_conv_sum_set) simp
  also have "set (filter P [0..<n]) = {k. k < n \<and> P k}"
    by auto
  finally show ?thesis .
qed

lemma list_all_filter_upt: "list_all (\<lambda>j. j < n) (filter P [0..<n])"
  by (simp add: list_all_iff)

lemma ideal_propagator_formula:
  "ideal_propagator la n t start end' (l0 # ls) =
     (case linalg_eig la n l0 of
        Inl e \<Rightarrow> Inl e
      | Inr (s, vr) \<Rightarrow>
        (case linalg_inv la n vr of
           Inl e \<Rightarrow> Inl e
         | Inr vri \<Rightarrow>
           if list_all (\<lambda>i. i < n) end' \<and> list_all (\<lambda>j. j < n) start then
             Inr \<lparr>nrows = length end', ncols = length start,
                  rows = map (\<lambda>i. map (\<lambda>j. \<Sum>k \<in> {k. k < n \<and> \<bar>Im (s k)\<bar> < 0.1}.
                                 vr i k * exp (s k * complex_of_real t) * vri k j) start) end'\<rparr>
           else Inl IndexError))"
proof (cases "linalg_eig la n l0")
  case (Inl e)
  then show ?thesis by (simp add: ideal_propagator_def)
next
  case (Inr sv)
  obtain s vr where sv: "sv = (s, vr)" by (cases sv)
  show ?thesis
  proof (cases "linalg_inv la n vr")
    case (Inl e)
    then show ?thesis using Inr sv by (simp add: ideal_propagator_def)
  next
    case inv: (Inr vri)
    define sl where "sl = filter (\<lambda>i. \<bar>Im (s i)\<bar> < 0.1) [0..<n]"
    have sl_ok: "list_all (\<lambda>j. j < n) sl"
      unfolding sl_def by (rule list_all_filter_upt)
    have sums: "sum_list (map g sl) = (\<Sum>k \<in> {k. k < n \<and> \<bar>Im (s k)\<bar> < 0.1}. g k)" for g :: "nat \<Rightarrow> complex"
      unfolding sl_def by (rule sum_list_filter_upt)
    have unfolded: "ideal_propagator la n t start end' (l0 # ls) =
      (case np_ix n vr end' sl of
        Inl e \<Rightarrow> Inl e
      | Inr vr_block \<Rightarrow>
     (case np_ix n vri sl start of
        Inl e \<Rightarrow> Inl e
      | Inr vri_block \<Rightarrow>
        Inr (dot (dot vr_block (diag (map (\<lambda>k. exp (s k * complex_of_real t)) sl)))
               vri_block)))"
      using Inr sv inv unfolding ideal_propagator_def sl_def Let_def by simp
    show ?thesis
    proof (cases "list_all (\<lambda>i. i < n) end' \<and> list_all (\<lambda>j. j < n) start")
      case True
      have "ideal_propagator la n t start end' (l0 # ls) =
        Inr (dot (dot \<lparr>nrows = length end', ncols = length sl, rows = map (\<lambda>i. map (\<lambda>k. vr i k) sl) end'\<rparr>
                   (diag (map (\<lambda>k. exp (s k * complex_of_real t)) sl)))
               \<lparr>nrows = length sl, ncols = length start, rows = map (\<lambda>k. map (\<lambda>j. vri k j) start) sl\<rparr>)"
        unfolding unfolded using True sl_ok by (simp add: np_ix_def)
      also have "\<dots> = Inr \<lparr>nrows = length end', ncols = length start,
                  rows = map (\<lambda>i. map (\<lambda>j. sum_list (map (\<lambda>k. vr i k * exp (s k * complex_of_real t) * vri k j) sl)) start) end'\<rparr>"
        by (simp only: dot_diag_block dot_block)
      finally show ?thesis
        using Inr sv inv True by (simp add: sums)
    next
      case False
      then have "ideal_propagator la n t start end' (l0 # ls) = Inl IndexError"
        unfolding unfolded using sl_ok by (auto simp: np_ix_def)
      then show ?thesis
        using Inr sv inv False by simp
    qed
  qed
qed

lemma eq_np_inf_iff: "eq_np_inf x \<longleftrightarrow> x = PosInf"
  by (cases x) (simp_all add: eq_np_inf_def)

text \<open>
  Claim C1. For every condition whose no-field Liouvillian is built and every non-empty
  stack of field-dependent Liouvillians, the propagator is that of the ideal regime if
  and only if \<open>b1_inh\<close> is positive infinity, and that of the averaging regime otherwise.
  In the ideal regime only the first Liouvillian of the stack is eigendecomposed (the
  result does not depend on the others), and when the decomposition and the inversion
  return, entry \<open>(i, j)\<close> of the propagator, for \<open>i\<close> in the observable group and \<open>j\<close> in
  the initial group, is the sum over exactly the eigenmodes \<open>k\<close> with
  \<open>\<bar>Im (s k)\<bar> < 0.1\<close> of \<open>vr[i][k] * exp (s[k] * time_t1) * vri[k][j]\<close>. An index group
  that leaves the basis raises IndexError.
\<close>

theorem ideal_regime_iff_b1_inh_infinite:
  assumes "louvillian_nob1_at self kwargs omega_i_cars b1_offset = Inr l_nob1"
    and "liouvillians_b1 self = l0 # ls"
  shows "propagator la self kwargs omega_i_cars start end' b1_offset =
     (if b1_inh self = PosInf then
        (case linalg_eig la (dim (base self)) (madd l0 l_nob1) of
           Inl e \<Rightarrow> Inl e
         | Inr (s, vr) \<Rightarrow>
           (case linalg_inv la (dim (base self)) vr of
              Inl e \<Rightarrow> Inl e
            | Inr vri \<Rightarrow>
              if list_all (\<lambda>i. i < dim (base self)) end' \<and>
                 list_all (\<lambda>j. j < dim (base self)) start
              then
                Inr \<lparr>nrows = length end', ncols = length start,
                     rows = map (\<lambda>i. map (\<lambda>j.
                              \<Sum>k \<in> {k. k < dim (base self) \<and> \<bar>Im (s k)\<bar> < 0.1}.
                                vr i k * exp (s k * complex_of_real (time_t1 self)) * vri k j)
                              start) end'\<rparr>
              else Inl IndexError))
      else
        averaged_propagator la (dim (base self)) (time_t1 self) (b1_weights self) start end'
          (map (\<lambda>l. madd l l_nob1) (l0 # ls)))"
proof (cases "b1_inh self = PosInf")
  case True
  then have "propagator la self kwargs omega_i_cars start end' b1_offset =
      ideal_propagator la (dim (base self)) (time_t1 self) start end'
        (madd l0 l_nob1 # map (\<lambda>l. madd l l_nob1) ls)"
    using assms by (simp add: propagator_def eq_np_inf_iff)
  then show ?thesis
    using True by (simp add: ideal_propagator_formula)
next
  case False
  then show ?thesis
    using assms by (simp add: propagator_def eq_np_inf_iff)
qed

text \<open>
  On the example: the eigenvalues are 0 and \<open>\<i>\<close>, the mode of \<open>\<i>\<close> is dropped, and the
  entry from the first basis element to the second is 1.
\<close>

theorem ideal_regime_witness:
  "propagator demo_linalg demo_profile Map.empty (omega_i_cars_of demo_profile Map.empty)
     [0] [1] 250 = Inr \<lparr>nrows = 1, ncols = 1, rows = [[1]]\<rparr>"
proof -
  let ?l = "\<lambda>i j. if i = (1::nat) \<and> j = (0::nat) then - \<i> else if i = 1 \<and> j = 1 then \<i> else 0"
  have nob1: "louvillian_nob1_at demo_profile Map.empty (omega_i_cars_of demo_profile Map.empty) 250
      = Inr ?l"
    by (simp add: louvillian_nob1_at_def omega_i_cars_of_def call_kw_def demo_profile_def
        demo_basis_def)
  have stack: "liouvillians_b1 demo_profile = (\<lambda>i j. 0) # []"
    by (simp add: demo_profile_def)
  have modes: "{k. k < (2::nat) \<and> \<bar>Im (madd (\<lambda>i j. 0) ?l k k)\<bar> < 0.1} = {0}"
    by (auto simp: madd_def)
  show ?thesis
    using ideal_regime_iff_b1_inh_infinite [OF nob1 stack, of demo_linalg "[0]" "[1]"] modes
    by (simp add: demo_profile_def demo_basis_def demo_linalg_def madd_def)
qed


lemma np_average_single:
  "np_average [p] [1] = Inr p"
  by (simp add: np_average_def)

text \<open>
  Claim C5. In the finite-field regime, with a single field value of weight 1, the
  propagator of a condition is the block of the matrix exponential of that one Liouvillian
  times \<open>time_t1\<close>, with nothing averaged; an exception of \<open>expm\<close> is passed on.
\<close>

theorem single_field_value_is_direct_exponential:
  assumes "b1_inh self \<noteq> PosInf"
    and "liouvillians_b1 self = [l_b1]"
    and "b1_weights self = [1]"
    and "louvillian_nob1_at self kwargs omega_i_cars b1_offset = Inr l_nob1"
  shows "propagator la self kwargs omega_i_cars start end' b1_offset =
     (case linalg_expm la (dim (base self)) (mscale (madd l_b1 l_nob1) (time_t1 self)) of
        Inl e \<Rightarrow> Inl e
      | Inr p \<Rightarrow> np_ix (dim (base self)) p end' start)"
  using assms
  by (simp add: propagator_def eq_np_inf_iff averaged_propagator_def np_average_single
      split: sum.splits)

text \<open>
  On the example with one field value: the entry is that of the exponential of the
  Liouvillian itself, \<open>1 - exp \<i>\<close>.
\<close>

theorem single_field_value_witness:
  "propagator demo_linalg single_field_profile Map.empty
     (omega_i_cars_of single_field_profile Map.empty) [0] [1] 250
   = Inr \<lparr>nrows = 1, ncols = 1, rows = [[1 - exp \<i>]]\<rparr>"
proof -
  let ?l = "\<lambda>i j. if i = (1::nat) \<and> j = (0::nat) then - \<i> else if i = 1 \<and> j = 1 then \<i> else 0"
  have nob1: "louvillian_nob1_at single_field_profile Map.empty
      (omega_i_cars_of single_field_profile Map.empty) 250 = Inr ?l"
    by (simp add: louvillian_nob1_at_def omega_i_cars_of_def call_kw_def single_field_profile_def
        demo_profile_def demo_basis_def)
  have a: "b1_inh single_field_profile \<noteq> PosInf"
    and b: "liouvillians_b1 single_field_profile = [\<lambda>i j. 0]"
    and c: "b1_weights single_field_profile = [1]"
    by (simp_all add: single_field_profile_def demo_profile_def)
  show ?thesis
    using single_field_value_is_direct_exponential [OF a b c nob1, of demo_linalg "[0]" "[1]"]
    by (simp add: single_field_profile_def demo_profile_def demo_basis_def demo_linalg_def
        madd_def mscale_def np_ix_def)
qed

lemma weighted_sum_scale:
  "sum_list (map2 (\<lambda>p w. p i j * complex_of_real w) a (map (\<lambda>w. c * w) ws))
   = complex_of_real c * sum_list (map2 (\<lambda>p w. p i j * complex_of_real w) a ws)"
proof (induction a arbitrary: ws)
  case Nil
  then show ?case by simp
next
  case (Cons p a)
  then show ?case by (cases ws) (simp_all add: algebra_simps)
qed

lemma np_average_scale:
  assumes "c \<noteq> 0"
  shows "np_average a (map (\<lambda>w. c * w) ws) = np_average a ws"
proof -
  have s: "sum_list (map (\<lambda>w. c * w) ws) = c * sum_list ws"
    by (simp add: sum_list_const_mult)
  show ?thesis
    using assms by (auto simp: np_average_def s weighted_sum_scale Let_def fun_eq_iff)
qed

lemma upd_weights_simps:
  "louvillian_nob1_at (self\<lparr>b1_weights := ws\<rparr>) kwargs cars b = louvillian_nob1_at self kwargs cars b"
  "omega_i_cars_of (self\<lparr>b1_weights := ws\<rparr>) kwargs = omega_i_cars_of self kwargs"
  by (simp_all add: louvillian_nob1_at_def omega_i_cars_of_def split: sum.splits)

lemma propagator_scale:
  assumes "c \<noteq> 0"
  shows "propagator la (self\<lparr>b1_weights := map (\<lambda>w. c * w) (b1_weights self)\<rparr>) kwargs cars start end' b
         = propagator la self kwargs cars start end' b"
  using assms
  by (simp add: propagator_def upd_weights_simps averaged_propagator_def np_average_scale Let_def
      split: sum.splits)

lemma intensity_cong:
  assumes "propagator la self' kwargs cars start end' b = propagator la self kwargs cars start end' b"
    and "base self' = base self"
  shows "intensity la self' kwargs cars start end' mag0 b = intensity la self kwargs cars start end' mag0 b"
  using assms by (simp add: intensity_def split: sum.splits)

lemma profile_loop_cong:
  assumes "\<And>b. b \<in> set bs \<Longrightarrow>
     intensity la self' kwargs cars start end' mag0 b = intensity la self kwargs cars start end' mag0 b"
  shows "profile_loop la self' kwargs cars start end' mag0 bs acc
         = profile_loop la self kwargs cars start end' mag0 bs acc"
  using assms by (induction bs arbitrary: acc) (simp_all split: sum.splits)

text \<open>
  A list comprehension returns a list exactly when every element's call returns, and
  then holds the results in order.
\<close>

lemma map_err_Inr_iff:
  "map_err f bs = Inr xs \<longleftrightarrow>
     length xs = length bs \<and> (\<forall>i < length bs. f (bs ! i) = Inr (xs ! i))"
proof (induction bs arbitrary: xs)
  case Nil
  then show ?case by auto
next
  case (Cons b bs)
  show ?case
  proof (cases xs)
    case Nil
    then show ?thesis by (auto split: sum.splits)
  next
    case (Cons y ys)
    then show ?thesis
      using Cons.IH [of ys]
      by (auto split: sum.splits simp: nth_Cons less_Suc_eq_0_disj split: nat.splits)
  qed
qed

lemma averaged_propagator_weighted_mean:
  assumes "length ps = length ls"
    and "\<forall>k < length ps. linalg_expm la n (mscale (ls ! k) t) = Inr (ps ! k)"
    and "length ws = length ps"
    and "sum_list ws \<noteq> 0"
  shows "averaged_propagator la n t ws start end' ls =
           np_ix n (\<lambda>i j. (\<Sum>k = 0..<length ps. (ps ! k) i j * complex_of_real (ws ! k))
                          / complex_of_real (\<Sum>k = 0..<length ps. ws ! k))
             end' start"
proof -
  have exps: "map_err (\<lambda>liouvillian. linalg_expm la n (mscale liouvillian t)) ls = Inr ps"
    unfolding map_err_Inr_iff using assms(1,2) by simp
  have num: "sum_list (map2 (\<lambda>p w. p i j * complex_of_real w) ps ws)
      = (\<Sum>k = 0..<length ps. (ps ! k) i j * complex_of_real (ws ! k))" for i j
    using assms(3) by (simp add: sum_list_map2_nth)
  have den: "sum_list ws = (\<Sum>k = 0..<length ps. ws ! k)"
    using assms(3) by (simp add: sum_list_sum_nth)
  have avg: "np_average ps ws =
      Inr (\<lambda>i j. (\<Sum>k = 0..<length ps. (ps ! k) i j * complex_of_real (ws ! k))
                          / complex_of_real (\<Sum>k = 0..<length ps. ws ! k))"
    using assms(3,4) unfolding np_average_def Let_def num by (simp add: den)
  show ?thesis
    by (simp add: averaged_propagator_def exps avg)
qed

text \<open>
  Claim C6, in exact arithmetic. In the finite-field regime, when every matrix
  exponential returns and there is one weight per field value, the propagator of a
  condition is the \<open>[mesh]\<close> block of the weighted mean of the exponentials: entry by
  entry, the sum of the exponentials times their weights, divided by the sum of the
  weights (not the weighted sum alone). For weights of positive sum and a positive
  constant \<open>c\<close>, the average with the weights multiplied by \<open>c\<close> is the average with the
  weights themselves, for every list of matrices; and so the propagator of every
  condition and the whole simulated profile do not change when \<open>b1_weights\<close> is scaled.
\<close>

theorem average_ignores_weight_scale:
  assumes "0 < c" and "0 < sum_list (b1_weights self)"
  shows "np_average a (map (\<lambda>w. c * w) (b1_weights self)) = np_average a (b1_weights self) \<and>
         (length a = length (b1_weights self) \<longrightarrow>
            np_average a (b1_weights self) =
              Inr (\<lambda>i j. sum_list (map2 (\<lambda>p w. p i j * complex_of_real w) a (b1_weights self))
                           / complex_of_real (sum_list (b1_weights self)))) \<and>
         (b1_inh self \<noteq> PosInf \<and>
          louvillian_nob1_at self kwargs omega_i_cars b1_offset = Inr l_nob1 \<and>
          liouvillians_b1 self \<noteq> [] \<and>
          length ps = length (liouvillians_b1 self) \<and>
          (\<forall>k < length ps.
             linalg_expm la (dim (base self))
               (mscale (madd (liouvillians_b1 self ! k) l_nob1) (time_t1 self)) = Inr (ps ! k)) \<and>
          length (b1_weights self) = length ps
          \<longrightarrow>
          propagator la self kwargs omega_i_cars start end' b1_offset =
            np_ix (dim (base self))
              (\<lambda>i j. (\<Sum>k = 0..<length ps. (ps ! k) i j * complex_of_real (b1_weights self ! k))
                      / complex_of_real (\<Sum>k = 0..<length ps. b1_weights self ! k))
              end' start) \<and>
         propagator la (self\<lparr>b1_weights := map (\<lambda>w. c * w) (b1_weights self)\<rparr>)
             kwargs omega_i_cars start end' b1_offset
           = propagator la self kwargs omega_i_cars start end' b1_offset \<and>
         calculate_unscaled_profile la (self\<lparr>b1_weights := map (\<lambda>w. c * w) (b1_weights self)\<rparr>) kwargs
           = calculate_unscaled_profile la self kwargs"
proof -
  let ?self' = "self\<lparr>b1_weights := map (\<lambda>w. c * w) (b1_weights self)\<rparr>"
  have c: "c \<noteq> 0" using assms(1) by simp
  have 1: "np_average a (map (\<lambda>w. c * w) (b1_weights self)) = np_average a (b1_weights self)"
    by (rule np_average_scale [OF c])
  have 2: "np_average a (b1_weights self) =
              Inr (\<lambda>i j. sum_list (map2 (\<lambda>p w. p i j * complex_of_real w) a (b1_weights self))
                           / complex_of_real (sum_list (b1_weights self)))"
    if "length a = length (b1_weights self)"
    using that assms(2) by (simp add: np_average_def)
  have mean: "propagator la self kwargs omega_i_cars start end' b1_offset =
            np_ix (dim (base self))
              (\<lambda>i j. (\<Sum>k = 0..<length ps. (ps ! k) i j * complex_of_real (b1_weights self ! k))
                      / complex_of_real (\<Sum>k = 0..<length ps. b1_weights self ! k))
              end' start"
    if regime: "b1_inh self \<noteq> PosInf"
      and nob1: "louvillian_nob1_at self kwargs omega_i_cars b1_offset = Inr l_nob1"
      and stack: "liouvillians_b1 self \<noteq> []"
      and len: "length ps = length (liouvillians_b1 self)"
      and exps: "\<forall>k < length ps.
             linalg_expm la (dim (base self))
               (mscale (madd (liouvillians_b1 self ! k) l_nob1) (time_t1 self)) = Inr (ps ! k)"
      and wlen: "length (b1_weights self) = length ps"
  proof -
    let ?ls = "map (\<lambda>l. madd l l_nob1) (liouvillians_b1 self)"
    have l: "length ps = length ?ls"
      using len by simp
    have e: "\<forall>k < length ps. linalg_expm la (dim (base self)) (mscale (?ls ! k) (time_t1 self))
        = Inr (ps ! k)"
      using exps len by simp
    have nz: "sum_list (b1_weights self) \<noteq> 0"
      using assms(2) by simp
    have "propagator la self kwargs omega_i_cars start end' b1_offset =
        averaged_propagator la (dim (base self)) (time_t1 self) (b1_weights self) start end' ?ls"
      using regime nob1 stack by (simp add: propagator_def eq_np_inf_iff)
    also have "\<dots> = np_ix (dim (base self))
              (\<lambda>i j. (\<Sum>k = 0..<length ps. (ps ! k) i j * complex_of_real (b1_weights self ! k))
                      / complex_of_real (\<Sum>k = 0..<length ps. b1_weights self ! k))
              end' start"
      by (rule averaged_propagator_weighted_mean [OF l e wlen nz])
    finally show ?thesis .
  qed
  have 3: "propagator la ?self' kwargs cars start end' b = propagator la self kwargs cars start end' b"
    for cars start end' b
    by (rule propagator_scale [OF c])
  have "intensity la ?self' kwargs cars start end' mag0 b = intensity la self kwargs cars start end' mag0 b"
    for cars start end' mag0 b
    by (rule intensity_cong) (simp_all add: 3)
  then have "profile_loop la ?self' kwargs cars start end' mag0 bs acc
         = profile_loop la self kwargs cars start end' mag0 bs acc" for cars start end' mag0 bs acc
    by (intro profile_loop_cong)
  then have 4: "calculate_unscaled_profile la ?self' kwargs = calculate_unscaled_profile la self kwargs"
    by (simp add: calculate_unscaled_profile_def upd_weights_simps Let_def split: sum.splits)
  from 1 2 mean 3 4 show ?thesis by blast
qed

text \<open>
  On the example with two different Liouvillians and the weights 1 and 3: the entry of
  the propagator is the sum of the two exponentials' entries times 1 and 3, divided by 4,
  and the weights 2 and 6 give the same propagator and the same profile.
\<close>

theorem average_weight_scale_witness:
  "propagator demo_linalg finite_profile Map.empty (omega_i_cars_of finite_profile Map.empty)
     [0] [1] 250
   = Inr \<lparr>nrows = 1, ncols = 1,
          rows = [[((1 - exp \<i>) * 1 + (1 - exp (2 * \<i>)) / 2 * 3) / 4]]\<rparr> \<and>
   propagator demo_linalg (finite_profile\<lparr>b1_weights := [2, 6]\<rparr>) Map.empty
     (omega_i_cars_of finite_profile Map.empty) [0] [1] 250
   = propagator demo_linalg finite_profile Map.empty (omega_i_cars_of finite_profile Map.empty)
       [0] [1] 250 \<and>
   calculate_unscaled_profile demo_linalg (finite_profile\<lparr>b1_weights := [2, 6]\<rparr>) Map.empty
   = calculate_unscaled_profile demo_linalg finite_profile Map.empty"
proof -
  let ?l = "\<lambda>i j. if i = (1::nat) \<and> j = (0::nat) then - \<i> else if i = 1 \<and> j = 1 then \<i> else 0"
  let ?m1 = "mscale (madd (\<lambda>i j. 0) ?l) 1"
  let ?m2 = "mscale (madd (\<lambda>i j. if i = (1::nat) \<and> j = (1::nat) then \<i> else 0) ?l) 1"
  have "\<exists>p. linalg_expm demo_linalg 2 ?m1 = Inr p \<and> p 1 0 = 1 - exp \<i>"
    by (simp add: demo_linalg_def madd_def mscale_def)
  then obtain p1 where e1: "linalg_expm demo_linalg 2 ?m1 = Inr p1" and v1: "p1 1 0 = 1 - exp \<i>"
    by blast
  have half: "- \<i> / (2 * \<i>) * (exp (2 * \<i>) - 1) = (1 - exp (2 * \<i>)) / 2"
    by (simp add: field_simps)
  have "\<exists>p. linalg_expm demo_linalg 2 ?m2 = Inr p \<and> p 1 0 = (1 - exp (2 * \<i>)) / 2"
    using half by (simp add: demo_linalg_def madd_def mscale_def)
  then obtain p2 where e2: "linalg_expm demo_linalg 2 ?m2 = Inr p2"
    and v2: "p2 1 0 = (1 - exp (2 * \<i>)) / 2"
    by blast
  have a: "(0::real) < 2" by simp
  have b: "0 < sum_list (b1_weights finite_profile)"
    by (simp add: finite_profile_def demo_profile_def)
  have c: "finite_profile\<lparr>b1_weights := map (\<lambda>w. 2 * w) (b1_weights finite_profile)\<rparr>
           = finite_profile\<lparr>b1_weights := [2, 6]\<rparr>"
    by (simp add: finite_profile_def demo_profile_def)
  have fields: "b1_inh finite_profile \<noteq> PosInf" "liouvillians_b1 finite_profile \<noteq> []"
    "length [p1, p2] = length (liouvillians_b1 finite_profile)"
    "length (b1_weights finite_profile) = length [p1, p2]"
    "dim (base finite_profile) = 2" "time_t1 finite_profile = 1"
    "b1_weights finite_profile = [1, 3]"
    by (simp_all add: finite_profile_def demo_profile_def demo_basis_def)
  have stack_eq: "liouvillians_b1 finite_profile =
      [\<lambda>i j. 0, \<lambda>i j. if i = (1::nat) \<and> j = (1::nat) then \<i> else 0]"
    by (simp add: finite_profile_def demo_profile_def)
  have nob1: "louvillian_nob1_at finite_profile Map.empty
      (omega_i_cars_of finite_profile Map.empty) 250 = Inr ?l"
    by (simp add: louvillian_nob1_at_def omega_i_cars_of_def call_kw_def finite_profile_def
        demo_profile_def demo_basis_def)
  have exps: "\<forall>k < length [p1, p2].
      linalg_expm demo_linalg (dim (base finite_profile))
        (mscale (madd (liouvillians_b1 finite_profile ! k) ?l) (time_t1 finite_profile))
      = Inr ([p1, p2] ! k)"
  proof (intro allI impI)
    fix k :: nat
    assume "k < length [p1, p2]"
    then have "k = 0 \<or> k = Suc 0"
      by auto
    then show "linalg_expm demo_linalg (dim (base finite_profile))
        (mscale (madd (liouvillians_b1 finite_profile ! k) ?l) (time_t1 finite_profile))
      = Inr ([p1, p2] ! k)"
    proof
      assume "k = 0"
      then show ?thesis
        unfolding fields(5,6) stack_eq by (simp only: nth_Cons_0 e1)
    next
      assume "k = Suc 0"
      then show ?thesis
        unfolding fields(5,6) stack_eq by (simp only: nth_Cons_Suc nth_Cons_0 e2)
    qed
  qed
  note th = average_ignores_weight_scale [OF a b,
      where a = "[]" and la = demo_linalg and kwargs = Map.empty
        and omega_i_cars = "omega_i_cars_of finite_profile Map.empty" and ?b1_offset = 250
        and ?l_nob1.0 = ?l and ps = "[p1, p2]" and start = "[0]" and end' = "[1]"]
  have mean: "propagator demo_linalg finite_profile Map.empty
      (omega_i_cars_of finite_profile Map.empty) [0] [1] 250
    = np_ix (dim (base finite_profile))
        (\<lambda>i j. (\<Sum>k = 0..<length [p1, p2]. ([p1, p2] ! k) i j
                    * complex_of_real (b1_weights finite_profile ! k))
                / complex_of_real (\<Sum>k = 0..<length [p1, p2]. b1_weights finite_profile ! k))
        [1] [0]"
    using th fields(1-4) nob1 exps by blast
  have entry: "propagator demo_linalg finite_profile Map.empty
      (omega_i_cars_of finite_profile Map.empty) [0] [1] 250
    = Inr \<lparr>nrows = 1, ncols = 1,
          rows = [[((1 - exp \<i>) * 1 + (1 - exp (2 * \<i>)) / 2 * 3) / 4]]\<rparr>"
    unfolding mean fields(5,7)
    by (simp add: np_ix_def v1 [unfolded One_nat_def] v2 [unfolded One_nat_def] algebra_simps)
  have scaled: "propagator demo_linalg (finite_profile\<lparr>b1_weights := [2, 6]\<rparr>) Map.empty
     (omega_i_cars_of finite_profile Map.empty) [0] [1] 250
   = propagator demo_linalg finite_profile Map.empty (omega_i_cars_of finite_profile Map.empty)
       [0] [1] 250"
    and profile: "calculate_unscaled_profile demo_linalg (finite_profile\<lparr>b1_weights := [2, 6]\<rparr>)
      Map.empty = calculate_unscaled_profile demo_linalg finite_profile Map.empty"
    using th unfolding c by blast+
  from entry scaled profile show ?thesis by blast
qed

section \<open>Properties of the simulated profile\<close>

text \<open>
  The loop over the conditions appends one intensity per pass and stops at the first
  exception: it is \<open>map_err\<close> of the single pass.
\<close>

lemma map_err_fails:
  "b \<in> set bs \<Longrightarrow> f b = Inl e \<Longrightarrow> \<exists>e'. map_err f bs = Inl e'"
  by (induction bs) (auto split: sum.splits)

lemma map_err_first_failure:
  "(\<forall>b \<in> set pre. \<exists>x. f b = Inr x) \<Longrightarrow> f b = Inl e \<Longrightarrow>
   map_err f (pre @ b # post) = Inl e"
  by (induction pre) (auto split: sum.splits)

lemma map_err_Inl:
  "map_err f bs = Inl e \<Longrightarrow> \<exists>b \<in> set bs. f b = Inl e"
  by (induction bs) (auto split: sum.splits)

lemma profile_loop_map_err:
  "profile_loop la self kwargs cars start end' mag0 bs acc =
     (case map_err (intensity la self kwargs cars start end' mag0) bs of
        Inl e \<Rightarrow> Inl e
      | Inr xs \<Rightarrow> Inr (acc @ xs))"
  by (induction bs arbitrary: acc) (auto split: sum.splits)

lemma call_kw_time_d1:
  "call_kw [(''time_d1'', t)] kwargs =
     (if kwargs ''time_d1'' = None then Inr (kwargs(''time_d1'' \<mapsto> t)) else Inl TypeError)"
  by (auto simp: call_kw_def)

lemma calculate_unscaled_profile_map_err:
  "calculate_unscaled_profile la self kwargs =
     (if kwargs ''time_d1'' = None then
        map_err (intensity la self kwargs (omega_i_cars_of self kwargs) (index_iz_eq (base self))
                   (index_iz_b (base self))
                   (compute_equilibrium_after_d1 (base self) (kwargs(''time_d1'' \<mapsto> time_d1 self))))
          (b1_offsets self)
      else Inl TypeError)"
  by (auto simp: calculate_unscaled_profile_def call_kw_time_d1 profile_loop_map_err Let_def
      split: sum.splits)

lemma intensity_Inr_iff:
  "intensity la self kwargs cars start end' mag0 b = Inr x \<longleftrightarrow>
     (\<exists>p mag0_start. propagator la self kwargs cars start end' b = Inr p \<and>
        take_vec (dim (base self)) mag0 start = Inr mag0_start \<and>
        x = np_float64 (map Re (dot_vec p mag0_start)))"
  by (auto simp: intensity_def split: sum.splits)

text \<open>
  Claim C2. \<open>calculate_unscaled_profile\<close> returns a profile exactly when the keyword
  \<open>time_d1\<close> is not among the parameters and, for every condition of \<open>b1_offsets\<close>, the
  propagator and the slice \<open>mag0[start]\<close> of the equilibrated magnetization are obtained;
  the profile then has one entry per condition, and entry \<open>i\<close> is the real part of the
  propagator of condition \<open>i\<close> applied to \<open>mag0[start]\<close>.
\<close>

theorem one_intensity_per_condition_in_order:
  "calculate_unscaled_profile la self kwargs = Inr profile \<longleftrightarrow>
     kwargs ''time_d1'' = None \<and>
     length profile = length (b1_offsets self) \<and>
     (\<forall>i < length (b1_offsets self). \<exists>p mag0_start.
        propagator la self kwargs (omega_i_cars_of self kwargs) (index_iz_eq (base self))
          (index_iz_b (base self)) (b1_offsets self ! i) = Inr p \<and>
        take_vec (dim (base self))
          (compute_equilibrium_after_d1 (base self) (kwargs(''time_d1'' \<mapsto> time_d1 self)))
          (index_iz_eq (base self)) = Inr mag0_start \<and>
        profile ! i = np_float64 (map Re (dot_vec p mag0_start)))"
  by (simp add: calculate_unscaled_profile_map_err map_err_Inr_iff intensity_Inr_iff)


lemma offset_profile_propagator:
  "propagator demo_linalg offset_profile Map.empty (omega_i_cars_of offset_profile Map.empty)
     [0] [1] b = Inr \<lparr>nrows = 1, ncols = 1, rows = [[- complex_of_real b]]\<rparr>"
proof -
  let ?l = "\<lambda>i j. if i = (1::nat) \<and> j = (0::nat) then - \<i> * complex_of_real (- b)
                  else if i = 1 \<and> j = 1 then \<i> else 0"
  have nob1: "louvillian_nob1_at offset_profile Map.empty
      (omega_i_cars_of offset_profile Map.empty) b = Inr ?l"
    by (simp add: louvillian_nob1_at_def omega_i_cars_of_def call_kw_def offset_profile_def
        offset_basis_def demo_profile_def demo_basis_def fun_eq_iff)
  have modes: "{k. k < (2::nat) \<and> \<bar>Im (madd (\<lambda>i j. 0) ?l k k)\<bar> < 0.1} = {0}"
    by (auto simp: madd_def)
  have "propagator demo_linalg offset_profile Map.empty (omega_i_cars_of offset_profile Map.empty)
     [0] [1] b = ideal_propagator demo_linalg 2 1 [0] [1] [madd (\<lambda>i j. 0) ?l]"
    unfolding propagator_def nob1
    by (simp add: offset_profile_def offset_basis_def demo_profile_def demo_basis_def
        eq_np_inf_def)
  also have "\<dots> = Inr \<lparr>nrows = 1, ncols = 1, rows = [[- complex_of_real b]]\<rparr>"
    unfolding ideal_propagator_formula using modes
    by (simp add: demo_linalg_def madd_def)
  finally show ?thesis .
qed

text \<open>
  On the example whose Liouvillian depends on the offset: four conditions, four
  intensities, in the order of the offsets.
\<close>

theorem one_intensity_per_condition_witness:
  "calculate_unscaled_profile demo_linalg offset_profile Map.empty
   = Inr [Scalar (- 250), Scalar (- 290), Scalar (- 310), Scalar (- 1000)]"
proof -
  have offs: "b1_offsets offset_profile = [250, 290, 310, 1000]"
    and grp: "index_iz_eq (base offset_profile) = [0]" "index_iz_b (base offset_profile) = [1]"
    and mag0: "take_vec (dim (base offset_profile))
          (compute_equilibrium_after_d1 (base offset_profile)
             (Map.empty(''time_d1'' \<mapsto> time_d1 offset_profile)))
          [0] = Inr [1]"
    by (simp_all add: offset_profile_def offset_basis_def demo_profile_def demo_basis_def
        take_vec_def)
  have each: "\<forall>i < length (b1_offsets offset_profile). \<exists>p mag0_start.
        propagator demo_linalg offset_profile Map.empty (omega_i_cars_of offset_profile Map.empty)
          (index_iz_eq (base offset_profile)) (index_iz_b (base offset_profile))
          (b1_offsets offset_profile ! i) = Inr p \<and>
        take_vec (dim (base offset_profile))
          (compute_equilibrium_after_d1 (base offset_profile)
             (Map.empty(''time_d1'' \<mapsto> time_d1 offset_profile)))
          (index_iz_eq (base offset_profile)) = Inr mag0_start \<and>
        [Scalar (- 250), Scalar (- 290), Scalar (- 310), Scalar (- 1000)] ! i
          = np_float64 (map Re (dot_vec p mag0_start))"
  proof (intro allI impI)
    fix i
    assume i: "i < length (b1_offsets offset_profile)"
    have lst: "[Scalar (- 250), Scalar (- 290), Scalar (- 310), Scalar (- 1000)]
        = map (\<lambda>b. Scalar (- b)) (b1_offsets offset_profile)"
      by (simp add: offs)
    have val: "np_float64 (map Re (dot_vec \<lparr>nrows = 1, ncols = 1,
        rows = [[- complex_of_real (b1_offsets offset_profile ! i)]]\<rparr> [1]))
        = Scalar (- (b1_offsets offset_profile ! i))"
      by (simp add: dot_vec_def np_float64_def)
    show "\<exists>p mag0_start.
        propagator demo_linalg offset_profile Map.empty (omega_i_cars_of offset_profile Map.empty)
          (index_iz_eq (base offset_profile)) (index_iz_b (base offset_profile))
          (b1_offsets offset_profile ! i) = Inr p \<and>
        take_vec (dim (base offset_profile))
          (compute_equilibrium_after_d1 (base offset_profile)
             (Map.empty(''time_d1'' \<mapsto> time_d1 offset_profile)))
          (index_iz_eq (base offset_profile)) = Inr mag0_start \<and>
        [Scalar (- 250), Scalar (- 290), Scalar (- 310), Scalar (- 1000)] ! i
          = np_float64 (map Re (dot_vec p mag0_start))"
      unfolding grp offset_profile_propagator mag0 lst
      using i val by (simp only: nth_map sum.inject simp_thms ex_simps)
  qed
  show ?thesis
    using one_intensity_per_condition_in_order
      [of demo_linalg offset_profile Map.empty
          "[Scalar (- 250), Scalar (- 290), Scalar (- 310), Scalar (- 1000)]"]
      each offs
    by simp
qed

lemma linalg_error_ideal:
  "linalg_error la n t True ls = Some e \<Longrightarrow> ideal_propagator la n t start end' ls = Inl e"
  by (auto simp: linalg_error_def ideal_propagator_def split: list.splits sum.splits prod.splits)

lemma linalg_error_averaged:
  "linalg_error la n t False ls = Some e \<Longrightarrow> averaged_propagator la n t ws start end' ls = Inl e"
  by (auto simp: linalg_error_def averaged_propagator_def split: sum.splits)

lemma propagator_unfold:
  assumes "louvillian_nob1_at self kwargs cars b = Inr l_nob1" and "liouvillians_b1 self \<noteq> []"
  shows "propagator la self kwargs cars start end' b =
     (if b1_inh self = PosInf
      then ideal_propagator la (dim (base self)) (time_t1 self) start end'
             (map (\<lambda>l. madd l l_nob1) (liouvillians_b1 self))
      else averaged_propagator la (dim (base self)) (time_t1 self) (b1_weights self) start end'
             (map (\<lambda>l. madd l l_nob1) (liouvillians_b1 self)))"
  using assms by (simp add: propagator_def eq_np_inf_iff)

lemma propagator_linalg_error:
  assumes "louvillian_nob1_at self kwargs cars b = Inr l_nob1" and "liouvillians_b1 self \<noteq> []"
    and "linalg_error la (dim (base self)) (time_t1 self) (b1_inh self = PosInf)
           (map (\<lambda>l. madd l l_nob1) (liouvillians_b1 self)) = Some e"
  shows "propagator la self kwargs cars start end' b = Inl e"
proof (cases "b1_inh self = PosInf")
  case True
  have "linalg_error la (dim (base self)) (time_t1 self) True
           (map (\<lambda>l. madd l l_nob1) (liouvillians_b1 self)) = Some e"
    using assms(3) True by simp
  from linalg_error_ideal [OF this] show ?thesis
    unfolding propagator_unfold [OF assms(1,2)] using True by simp
next
  case False
  have "linalg_error la (dim (base self)) (time_t1 self) False
           (map (\<lambda>l. madd l l_nob1) (liouvillians_b1 self)) = Some e"
    using assms(3) False by simp
  from linalg_error_averaged [OF this] show ?thesis
    unfolding propagator_unfold [OF assms(1,2)] using False by simp
qed


lemma intensity_propagator_fails:
  "propagator la self kwargs cars start end' b = Inl e \<Longrightarrow>
   intensity la self kwargs cars start end' mag0 b = Inl e"
  by (simp add: intensity_def)

lemma calculate_fails:
  assumes "b \<in> set (b1_offsets self)"
    and "intensity la self kwargs (omega_i_cars_of self kwargs) (index_iz_eq (base self))
           (index_iz_b (base self))
           (compute_equilibrium_after_d1 (base self) (kwargs(''time_d1'' \<mapsto> time_d1 self))) b = Inl e"
  shows "\<exists>e'. calculate_unscaled_profile la self kwargs = Inl e'"
proof (cases "kwargs ''time_d1'' = None")
  case True
  have "calculate_unscaled_profile la self kwargs =
      map_err (intensity la self kwargs (omega_i_cars_of self kwargs) (index_iz_eq (base self))
                   (index_iz_b (base self))
                   (compute_equilibrium_after_d1 (base self) (kwargs(''time_d1'' \<mapsto> time_d1 self))))
          (b1_offsets self)"
    by (simp only: calculate_unscaled_profile_map_err True if_True simp_thms)
  moreover have "\<exists>e'. map_err (intensity la self kwargs (omega_i_cars_of self kwargs) (index_iz_eq (base self))
                   (index_iz_b (base self))
                   (compute_equilibrium_after_d1 (base self) (kwargs(''time_d1'' \<mapsto> time_d1 self))))
          (b1_offsets self) = Inl e'"
    using map_err_fails [of b "b1_offsets self" "intensity la self kwargs (omega_i_cars_of self kwargs) (index_iz_eq (base self))
                   (index_iz_b (base self))
                   (compute_equilibrium_after_d1 (base self) (kwargs(''time_d1'' \<mapsto> time_d1 self)))" e] assms by blast
  ultimately show ?thesis
    by (simp only:)
next
  case False
  have "calculate_unscaled_profile la self kwargs = Inl TypeError"
    by (simp only: calculate_unscaled_profile_map_err False if_False)
  then show ?thesis by blast
qed

lemma calculate_first_failure:
  assumes "b1_offsets self = before @ b # rest"
    and "kwargs ''time_d1'' = None"
    and "\<forall>b' \<in> set before. \<exists>x.
           intensity la self kwargs (omega_i_cars_of self kwargs) (index_iz_eq (base self))
             (index_iz_b (base self))
             (compute_equilibrium_after_d1 (base self) (kwargs(''time_d1'' \<mapsto> time_d1 self))) b' = Inr x"
    and "intensity la self kwargs (omega_i_cars_of self kwargs) (index_iz_eq (base self))
           (index_iz_b (base self))
           (compute_equilibrium_after_d1 (base self) (kwargs(''time_d1'' \<mapsto> time_d1 self))) b = Inl e"
  shows "calculate_unscaled_profile la self kwargs = Inl e"
proof -
  have "calculate_unscaled_profile la self kwargs =
      map_err (intensity la self kwargs (omega_i_cars_of self kwargs) (index_iz_eq (base self))
                   (index_iz_b (base self))
                   (compute_equilibrium_after_d1 (base self) (kwargs(''time_d1'' \<mapsto> time_d1 self))))
          (before @ b # rest)"
    by (simp only: calculate_unscaled_profile_map_err assms(1,2) if_True simp_thms)
  moreover have "map_err (intensity la self kwargs (omega_i_cars_of self kwargs) (index_iz_eq (base self))
                   (index_iz_b (base self))
                   (compute_equilibrium_after_d1 (base self) (kwargs(''time_d1'' \<mapsto> time_d1 self))))
          (before @ b # rest) = Inl e"
    using map_err_first_failure [of before "intensity la self kwargs (omega_i_cars_of self kwargs) (index_iz_eq (base self))
                   (index_iz_b (base self))
                   (compute_equilibrium_after_d1 (base self) (kwargs(''time_d1'' \<mapsto> time_d1 self)))" b e rest] assms(3,4) by blast
  ultimately show ?thesis
    by (simp only:)
qed


text \<open>
  Claim C7. When, at a condition of \<open>b1_offsets\<close>, a call into \<open>scipy.linalg\<close> raises
  (\<open>eig\<close> or \<open>inv\<close> in the ideal regime, an \<open>expm\<close> in the averaging regime), that
  exception is the result of the condition's propagator, \<open>calculate_unscaled_profile\<close>
  returns no profile but an exception, and when nothing was raised before that condition
  the exception it ends with is the one the linear algebra raised.
\<close>

theorem linalg_failure_is_raised:
  assumes "b1_offsets self = before @ b1_offset # rest"
    and "louvillian_nob1_at self kwargs (omega_i_cars_of self kwargs) b1_offset = Inr l_nob1"
    and "liouvillians_b1 self \<noteq> []"
    and "linalg_error la (dim (base self)) (time_t1 self) (b1_inh self = PosInf)
           (map (\<lambda>l. madd l l_nob1) (liouvillians_b1 self)) = Some e"
  shows "propagator la self kwargs (omega_i_cars_of self kwargs) (index_iz_eq (base self))
           (index_iz_b (base self)) b1_offset = Inl e \<and>
         (\<exists>e'. calculate_unscaled_profile la self kwargs = Inl e') \<and>
         (kwargs ''time_d1'' = None \<and>
          (\<forall>b \<in> set before. \<exists>x.
             intensity la self kwargs (omega_i_cars_of self kwargs) (index_iz_eq (base self))
               (index_iz_b (base self))
               (compute_equilibrium_after_d1 (base self) (kwargs(''time_d1'' \<mapsto> time_d1 self)))
               b = Inr x)
          \<longrightarrow> calculate_unscaled_profile la self kwargs = Inl e)"
proof -
  let ?cars = "omega_i_cars_of self kwargs"
  let ?start = "index_iz_eq (base self)"
  let ?end = "index_iz_b (base self)"
  let ?mag0 = "compute_equilibrium_after_d1 (base self) (kwargs(''time_d1'' \<mapsto> time_d1 self))"
  have p: "propagator la self kwargs ?cars ?start ?end b1_offset = Inl e"
    by (rule propagator_linalg_error [OF assms(2,3,4)])
  have i: "intensity la self kwargs ?cars ?start ?end ?mag0 b1_offset = Inl e"
    by (rule intensity_propagator_fails [OF p])
  have mem: "b1_offset \<in> set (b1_offsets self)"
    unfolding assms(1) by simp
  have some: "\<exists>e'. calculate_unscaled_profile la self kwargs = Inl e'"
    by (rule calculate_fails [OF mem i])
  have first: "calculate_unscaled_profile la self kwargs = Inl e"
    if "kwargs ''time_d1'' = None"
      and "\<forall>b \<in> set before. \<exists>x. intensity la self kwargs ?cars ?start ?end ?mag0 b = Inr x"
    by (rule calculate_first_failure [OF assms(1) that i])
  from p some first show ?thesis by blast
qed

text \<open>On the example, with an \<open>inv\<close> that reports a singular matrix.\<close>

theorem linalg_failure_witness:
  "calculate_unscaled_profile failing_linalg demo_profile Map.empty = Inl LinAlgError"
proof -
  let ?l = "\<lambda>i j. if i = (1::nat) \<and> j = (0::nat) then - \<i> else if i = 1 \<and> j = 1 then \<i> else 0"
  have offs: "b1_offsets demo_profile = [] @ 250 # [290, 310, 1000]"
    by (simp add: demo_profile_def)
  have nob1: "louvillian_nob1_at demo_profile Map.empty (omega_i_cars_of demo_profile Map.empty) 250
      = Inr ?l"
    by (simp add: louvillian_nob1_at_def omega_i_cars_of_def call_kw_def demo_profile_def
        demo_basis_def)
  have stack: "liouvillians_b1 demo_profile \<noteq> []"
    by (simp add: demo_profile_def)
  have err: "linalg_error failing_linalg (dim (base demo_profile)) (time_t1 demo_profile)
           (b1_inh demo_profile = PosInf)
           (map (\<lambda>l. madd l ?l) (liouvillians_b1 demo_profile)) = Some LinAlgError"
    by (simp add: linalg_error_def failing_linalg_def demo_linalg_def demo_profile_def)
  show ?thesis
    using linalg_failure_is_raised [OF offs nob1 stack err] by simp
qed

section \<open>Properties of the construction\<close>

lemma select_base_iff:
  "select_base m two three four =
     (if (\<exists>ps ss. m = ps @ ''3st'' @ ss) then three
      else if (\<exists>ps ss. m = ps @ ''4st'' @ ss) then four
      else two)"
  unfolding select_base_def sublist_def by (rule refl)

lemma init_Inr:
  assumes "init two three four super_init cpf cpb name measurements exp_details = Inr p"
  shows "\<exists>parent t eq tied.
     super_init name measurements exp_details = Inr parent \<and>
     cpf exp_details ''time_d1'' 1.0 = Inr t \<and>
     cpb exp_details ''equilibrium'' False = Inr eq \<and>
     tie_r2 [''r2_i_b'', ''r2_i_c'', ''r2_i_d'']
       (fst (create_default_params (select_base (model parent) two three four) (model parent)
              (nuclei parent) (temperature parent) (h_larmor_frq parent) (p_total parent)
              (l_total parent)))
       (snd (create_default_params (select_base (model parent) two three four) (model parent)
              (nuclei parent) (temperature parent) (h_larmor_frq parent) (p_total parent)
              (l_total parent))) = Inr tied \<and>
     p = cest_profile.extend parent
           (profile.fields t eq (select_base (model parent) two three four)
              (map (\<lambda>omega1. compute_liouvillian (select_base (model parent) two three four)
                                [''omega1x_i'' \<mapsto> omega1]) (omega1s parent))
              (fst (create_default_params (select_base (model parent) two three four) (model parent)
                     (nuclei parent) (temperature parent) (h_larmor_frq parent) (p_total parent)
                     (l_total parent)))
              tied)"
  using assms unfolding init_def Let_def
  by (auto split: sum.splits prod.splits simp del: tie_r2.simps)


lemma extend_fields:
  "base (cest_profile.extend parent (profile.fields t eq b ls mn dp)) = b"
  "liouvillians_b1 (cest_profile.extend parent (profile.fields t eq b ls mn dp)) = ls"
  "map_names (cest_profile.extend parent (profile.fields t eq b ls mn dp)) = mn"
  "default_params (cest_profile.extend parent (profile.fields t eq b ls mn dp)) = dp"
  "model (cest_profile.extend parent (profile.fields t eq b ls mn dp)) = model parent"
  "omega1s (cest_profile.extend parent (profile.fields t eq b ls mn dp)) = omega1s parent"
  "nuclei (cest_profile.extend parent (profile.fields t eq b ls mn dp)) = nuclei parent"
  "temperature (cest_profile.extend parent (profile.fields t eq b ls mn dp)) = temperature parent"
  "h_larmor_frq (cest_profile.extend parent (profile.fields t eq b ls mn dp)) = h_larmor_frq parent"
  "p_total (cest_profile.extend parent (profile.fields t eq b ls mn dp)) = p_total parent"
  "l_total (cest_profile.extend parent (profile.fields t eq b ls mn dp)) = l_total parent"
  by (simp_all add: cest_profile.defs profile.defs base_profile.defs)

lemma filter_points_base:
  "filter_points self params = Inr self' \<Longrightarrow> base self' = base self"
  unfolding filter_points_def Let_def
  by (auto split: option.splits sum.splits)

text \<open>
  Claim C8. Whenever the construction of a profile returns, its basis is the three-state
  one if the model string contains \<open>3st\<close>, otherwise the four-state one if it contains
  \<open>4st\<close>, and otherwise the two-state one; the stack \<open>liouvillians_b1\<close> is built by that
  basis, one Liouvillian per field value; the parameter names and the default parameters
  (before the loop that ties the relaxation rates) are those the basis creates; and the
  filter leaves the basis as it is. The simulation reads the index groups and the
  builders from that same field.
\<close>

theorem init_selects_basis_by_model_substring:
  assumes "init two_state three_state four_state super_init check_par_float check_par_bool
             name measurements exp_details = Inr self"
  shows "base self =
           (if (\<exists>ps ss. model self = ps @ ''3st'' @ ss) then three_state
            else if (\<exists>ps ss. model self = ps @ ''4st'' @ ss) then four_state
            else two_state) \<and>
         liouvillians_b1 self =
           map (\<lambda>omega1. compute_liouvillian (base self) [''omega1x_i'' \<mapsto> omega1]) (omega1s self) \<and>
         map_names self =
           fst (create_default_params (base self) (model self) (nuclei self) (temperature self)
                  (h_larmor_frq self) (p_total self) (l_total self)) \<and>
         tie_r2 [''r2_i_b'', ''r2_i_c'', ''r2_i_d''] (map_names self)
           (snd (create_default_params (base self) (model self) (nuclei self) (temperature self)
                   (h_larmor_frq self) (p_total self) (l_total self)))
           = Inr (default_params self) \<and>
         (\<forall>params self'. filter_points self params = Inr self' \<longrightarrow> base self' = base self)"
proof -
  obtain parent t eq tied where
    tied: "tie_r2 [''r2_i_b'', ''r2_i_c'', ''r2_i_d'']
       (fst (create_default_params (select_base (model parent) two_state three_state four_state) (model parent)
              (nuclei parent) (temperature parent) (h_larmor_frq parent) (p_total parent)
              (l_total parent)))
       (snd (create_default_params (select_base (model parent) two_state three_state four_state) (model parent)
              (nuclei parent) (temperature parent) (h_larmor_frq parent) (p_total parent)
              (l_total parent))) = Inr tied"
    and self: "self = cest_profile.extend parent
           (profile.fields t eq (select_base (model parent) two_state three_state four_state)
              (map (\<lambda>omega1. compute_liouvillian (select_base (model parent) two_state three_state four_state)
                                [''omega1x_i'' \<mapsto> omega1]) (omega1s parent))
              (fst (create_default_params (select_base (model parent) two_state three_state four_state) (model parent)
                     (nuclei parent) (temperature parent) (h_larmor_frq parent) (p_total parent)
                     (l_total parent)))
              tied)"
    using init_Inr [OF assms] by blast
  have b: "base self = select_base (model self) two_state three_state four_state"
    by (simp only: self extend_fields)
  have 1: "base self =
           (if (\<exists>ps ss. model self = ps @ ''3st'' @ ss) then three_state
            else if (\<exists>ps ss. model self = ps @ ''4st'' @ ss) then four_state
            else two_state)"
    unfolding b by (rule select_base_iff)
  have b': "select_base (model self) two_state three_state four_state = base self"
    by (simp only: b)
  have par: "model parent = model self" "omega1s parent = omega1s self" "nuclei parent = nuclei self"
    "temperature parent = temperature self" "h_larmor_frq parent = h_larmor_frq self"
    "p_total parent = p_total self" "l_total parent = l_total self"
    by (simp_all only: self extend_fields)
  have 2: "liouvillians_b1 self =
           map (\<lambda>omega1. compute_liouvillian (base self) [''omega1x_i'' \<mapsto> omega1]) (omega1s self)"
    by (subst self) (simp only: extend_fields b' par)
  have 3: "map_names self =
           fst (create_default_params (base self) (model self) (nuclei self) (temperature self)
                  (h_larmor_frq self) (p_total self) (l_total self))"
    by (subst self) (simp only: extend_fields b' par)
  have dp: "default_params self = tied"
    by (simp only: self extend_fields)
  have 4: "tie_r2 [''r2_i_b'', ''r2_i_c'', ''r2_i_d''] (map_names self)
           (snd (create_default_params (base self) (model self) (nuclei self) (temperature self)
                   (h_larmor_frq self) (p_total self) (l_total self)))
           = Inr (default_params self)"
    using tied unfolding dp 3 b' par .
  have 5: "\<forall>params self'. filter_points self params = Inr self' \<longrightarrow> base self' = base self"
    using filter_points_base by blast
  from 1 2 3 4 5 show ?thesis by blast
qed


text \<open>
  The construction on the example, for a model string that contains both \<open>4st\<close> and
  \<open>3st\<close>.
\<close>

lemma demo_init_three_state:
  "init demo_basis three_state_basis four_state_basis demo_super_init demo_check_par demo_check_par
     ''G23N-HN'' () [''model'' \<mapsto> ''4st_or_3st.pb_kex'']
   = Inr (cest_profile.extend
            (cest_profile.truncate (demo_profile\<lparr>profile_id := ''G23N-HN'', model := ''4st_or_3st.pb_kex''\<rparr>))
            (profile.fields 1 False three_state_basis
               [compute_liouvillian three_state_basis [''omega1x_i'' \<mapsto> 0]]
               [''r2_i_a'' \<mapsto> ''r2_a'', ''r2_i_b'' \<mapsto> ''r2_b'', ''r2_i_c'' \<mapsto> ''r2_c'',
                ''cs_i_b'' \<mapsto> ''cs_b'']
               [''r2_a'' \<mapsto> free_param 10,
                ''r2_b'' \<mapsto> (free_param 10)\<lparr>expr := Some ''r2_a'', vary := False\<rparr>,
                ''r2_c'' \<mapsto> (free_param 10)\<lparr>expr := Some ''r2_a'', vary := False\<rparr>,
                ''cs_b'' \<mapsto> free_param 1]))"
proof -
  have sub: "sublist ''3st'' ''4st_or_3st.pb_kex''"
    by code_simp
  have m: "model (cest_profile.truncate (demo_profile\<lparr>profile_id := ''G23N-HN'', model := ''4st_or_3st.pb_kex''\<rparr>))
      = ''4st_or_3st.pb_kex''"
    and o: "omega1s (cest_profile.truncate (demo_profile\<lparr>profile_id := ''G23N-HN'', model := ''4st_or_3st.pb_kex''\<rparr>))
      = [0]"
    by (simp_all add: cest_profile.defs demo_profile_def)
  have cdp: "create_default_params three_state_basis a b c d e f =
       ([''r2_i_a'' \<mapsto> ''r2_a'', ''r2_i_b'' \<mapsto> ''r2_b'', ''r2_i_c'' \<mapsto> ''r2_c'',
              ''cs_i_b'' \<mapsto> ''cs_b''],
             [''r2_a'' \<mapsto> free_param 10, ''r2_b'' \<mapsto> free_param 10,
              ''r2_c'' \<mapsto> free_param 10, ''cs_b'' \<mapsto> free_param 1])" for a b c d e f
    by (simp add: three_state_basis_def)
  have tie: "tie_r2 [''r2_i_b'', ''r2_i_c'', ''r2_i_d'']
       [''r2_i_a'' \<mapsto> ''r2_a'', ''r2_i_b'' \<mapsto> ''r2_b'', ''r2_i_c'' \<mapsto> ''r2_c'', ''cs_i_b'' \<mapsto> ''cs_b'']
       [''r2_a'' \<mapsto> free_param 10, ''r2_b'' \<mapsto> free_param 10,
        ''r2_c'' \<mapsto> free_param 10, ''cs_b'' \<mapsto> free_param 1]
     = Inr [''r2_a'' \<mapsto> free_param 10,
                ''r2_b'' \<mapsto> (free_param 10)\<lparr>expr := Some ''r2_a'', vary := False\<rparr>,
                ''r2_c'' \<mapsto> (free_param 10)\<lparr>expr := Some ''r2_a'', vary := False\<rparr>,
                ''cs_b'' \<mapsto> free_param 1]"
    by (simp add: fun_upd_twist)
  show ?thesis
    unfolding init_def Let_def demo_super_init_def demo_check_par_def
    by (simp add: m o select_base_def sub cdp tie del: tie_r2.simps)
qed

text \<open>The test for \<open>3st\<close> comes first: the three-state basis is selected.\<close>

theorem init_selects_basis_witness:
  "\<exists>self. init demo_basis three_state_basis four_state_basis demo_super_init demo_check_par
       demo_check_par ''G23N-HN'' () [''model'' \<mapsto> ''4st_or_3st.pb_kex''] = Inr self \<and>
     base self = three_state_basis \<and> dim (base self) = 3"
proof -
  have sub: "\<exists>ps ss. ''4st_or_3st.pb_kex'' = ps @ ''3st'' @ ss"
  proof -
    have "sublist ''3st'' ''4st_or_3st.pb_kex''" by code_simp
    then show ?thesis by (simp only: sublist_def)
  qed
  have m: "model (cest_profile.extend
            (cest_profile.truncate (demo_profile\<lparr>profile_id := ''G23N-HN'', model := ''4st_or_3st.pb_kex''\<rparr>))
            (profile.fields 1 False three_state_basis
               [compute_liouvillian three_state_basis [''omega1x_i'' \<mapsto> 0]]
               [''r2_i_a'' \<mapsto> ''r2_a'', ''r2_i_b'' \<mapsto> ''r2_b'', ''r2_i_c'' \<mapsto> ''r2_c'',
                ''cs_i_b'' \<mapsto> ''cs_b'']
               [''r2_a'' \<mapsto> free_param 10,
                ''r2_b'' \<mapsto> (free_param 10)\<lparr>expr := Some ''r2_a'', vary := False\<rparr>,
                ''r2_c'' \<mapsto> (free_param 10)\<lparr>expr := Some ''r2_a'', vary := False\<rparr>,
                ''cs_b'' \<mapsto> free_param 1])) = ''4st_or_3st.pb_kex''"
    by (simp add: cest_profile.defs profile.defs demo_profile_def)
  note th = init_selects_basis_by_model_substring [OF demo_init_three_state, THEN conjunct1]
  have b: "base (cest_profile.extend
            (cest_profile.truncate (demo_profile\<lparr>profile_id := ''G23N-HN'', model := ''4st_or_3st.pb_kex''\<rparr>))
            (profile.fields 1 False three_state_basis
               [compute_liouvillian three_state_basis [''omega1x_i'' \<mapsto> 0]]
               [''r2_i_a'' \<mapsto> ''r2_a'', ''r2_i_b'' \<mapsto> ''r2_b'', ''r2_i_c'' \<mapsto> ''r2_c'',
                ''cs_i_b'' \<mapsto> ''cs_b'']
               [''r2_a'' \<mapsto> free_param 10,
                ''r2_b'' \<mapsto> (free_param 10)\<lparr>expr := Some ''r2_a'', vary := False\<rparr>,
                ''r2_c'' \<mapsto> (free_param 10)\<lparr>expr := Some ''r2_a'', vary := False\<rparr>,
                ''cs_b'' \<mapsto> free_param 1])) = three_state_basis"
    using th unfolding m by (simp only: sub if_True)
  have d: "dim three_state_basis = 3"
    by (simp add: three_state_basis_def)
  show ?thesis
    apply (rule exI)
    apply (intro conjI)
      apply (rule demo_init_three_state)
     apply (rule b)
    apply (simp only: b d)
    done
qed


lemma tie_r2_keeps_tied:
  assumes "tie_r2 names mn dp = Inr dp'"
    and "mn ''r2_i_a'' = Some target"
    and "\<exists>par. dp full = Some par \<and> expr par = Some target"
  shows "\<exists>par. dp' full = Some par \<and> expr par = Some target"
  using assms
proof (induction names arbitrary: dp)
  case Nil
  then show ?case by simp
next
  case (Cons name names)
  show ?case
  proof (cases "mn name")
    case None
    with Cons.prems have "tie_r2 names mn dp = Inr dp'" by simp
    from Cons.IH [OF this Cons.prems(2,3)] show ?thesis .
  next
    case (Some full')
    then obtain par' where par': "dp full' = Some par'"
      and step: "tie_r2 names mn (dp(full' \<mapsto> par'\<lparr>expr := Some target, vary := False\<rparr>)) = Inr dp'"
      using Cons.prems(1,2) by (auto split: option.splits)
    have "\<exists>par. (dp(full' \<mapsto> par'\<lparr>expr := Some target, vary := False\<rparr>)) full = Some par \<and> expr par = Some target"
      using Cons.prems(3) by simp
    from Cons.IH [OF step Cons.prems(2) this] show ?thesis .
  qed
qed

lemma tie_r2_ties:
  assumes "tie_r2 names mn dp = Inr dp'"
    and "name \<in> set names"
    and "mn name = Some full"
  shows "\<exists>par target. dp' full = Some par \<and> mn ''r2_i_a'' = Some target \<and> expr par = Some target"
  using assms
proof (induction names arbitrary: dp)
  case Nil
  then show ?case by simp
next
  case (Cons n names)
  show ?case
  proof (cases "n = name")
    case True
    then obtain par target where par: "dp full = Some par"
      and target: "mn ''r2_i_a'' = Some target"
      and step: "tie_r2 names mn (dp(full \<mapsto> par\<lparr>expr := Some target, vary := False\<rparr>)) = Inr dp'"
      using Cons.prems(1,3) by (auto split: option.splits)
    have "\<exists>p. (dp(full \<mapsto> par\<lparr>expr := Some target, vary := False\<rparr>)) full = Some p \<and> expr p = Some target"
      by simp
    from tie_r2_keeps_tied [OF step target this] target show ?thesis by blast
  next
    case False
    then have mem: "name \<in> set names" using Cons.prems(2) by simp
    show ?thesis
    proof (cases "mn n")
      case None
      with Cons.prems(1) have "tie_r2 names mn dp = Inr dp'" by simp
      from Cons.IH [OF this mem Cons.prems(3)] show ?thesis .
    next
      case (Some full')
      then obtain par' target where
        step: "tie_r2 names mn (dp(full' \<mapsto> par'\<lparr>expr := Some target, vary := False\<rparr>)) = Inr dp'"
        using Cons.prems(1) by (auto split: option.splits)
      from Cons.IH [OF step mem Cons.prems(3)] show ?thesis .
    qed
  qed
qed

text \<open>
  Claim C9. Whenever the construction of a profile returns, for each of the names
  \<open>r2_i_b\<close>, \<open>r2_i_c\<close> and \<open>r2_i_d\<close> that the parameter-name mapping contains, the
  default parameter of that name exists and its expression is the name of state A's
  transverse relaxation rate, \<open>map_names['r2_i_a']\<close>.
\<close>

theorem transverse_rates_tied_to_state_a:
  assumes "init two_state three_state four_state super_init check_par_float check_par_bool
             name measurements exp_details = Inr self"
    and "state \<in> {''r2_i_b'', ''r2_i_c'', ''r2_i_d''}"
    and "map_names self state = Some full"
  shows "\<exists>par r2_i_a. default_params self full = Some par \<and>
           map_names self ''r2_i_a'' = Some r2_i_a \<and> expr par = Some r2_i_a"
proof -
  obtain parent t eq tied where
    tied: "tie_r2 [''r2_i_b'', ''r2_i_c'', ''r2_i_d'']
       (fst (create_default_params (select_base (model parent) two_state three_state four_state) (model parent)
              (nuclei parent) (temperature parent) (h_larmor_frq parent) (p_total parent)
              (l_total parent)))
       (snd (create_default_params (select_base (model parent) two_state three_state four_state) (model parent)
              (nuclei parent) (temperature parent) (h_larmor_frq parent) (p_total parent)
              (l_total parent))) = Inr tied"
    and self: "self = cest_profile.extend parent
           (profile.fields t eq (select_base (model parent) two_state three_state four_state)
              (map (\<lambda>omega1. compute_liouvillian (select_base (model parent) two_state three_state four_state)
                                [''omega1x_i'' \<mapsto> omega1]) (omega1s parent))
              (fst (create_default_params (select_base (model parent) two_state three_state four_state) (model parent)
                     (nuclei parent) (temperature parent) (h_larmor_frq parent) (p_total parent)
                     (l_total parent)))
              tied)"
    using init_Inr [OF assms(1)] by blast
  have mn: "map_names self = fst (create_default_params (select_base (model parent) two_state three_state four_state) (model parent)
              (nuclei parent) (temperature parent) (h_larmor_frq parent) (p_total parent)
              (l_total parent))"
    and dp: "default_params self = tied"
    by (simp_all only: self extend_fields)
  have mem: "state \<in> set [''r2_i_b'', ''r2_i_c'', ''r2_i_d'']"
    using assms(2) by simp
  from tie_r2_ties [OF tied [folded mn] mem assms(3)] show ?thesis
    unfolding dp .
qed

text \<open>On the example: the rate of state C is tied to the parameter \<open>r2_a\<close>.\<close>

theorem transverse_rates_tied_witness:
  "\<exists>self par. init demo_basis three_state_basis four_state_basis demo_super_init demo_check_par
       demo_check_par ''G23N-HN'' () [''model'' \<mapsto> ''4st_or_3st.pb_kex''] = Inr self \<and>
     map_names self ''r2_i_c'' = Some ''r2_c'' \<and> map_names self ''r2_i_a'' = Some ''r2_a'' \<and>
     default_params self ''r2_c'' = Some par \<and> expr par = Some ''r2_a''"
proof -
  let ?self = "cest_profile.extend
            (cest_profile.truncate (demo_profile\<lparr>profile_id := ''G23N-HN'', model := ''4st_or_3st.pb_kex''\<rparr>))
            (profile.fields 1 False three_state_basis
               [compute_liouvillian three_state_basis [''omega1x_i'' \<mapsto> 0]]
               [''r2_i_a'' \<mapsto> ''r2_a'', ''r2_i_b'' \<mapsto> ''r2_b'', ''r2_i_c'' \<mapsto> ''r2_c'',
                ''cs_i_b'' \<mapsto> ''cs_b'']
               [''r2_a'' \<mapsto> free_param 10,
                ''r2_b'' \<mapsto> (free_param 10)\<lparr>expr := Some ''r2_a'', vary := False\<rparr>,
                ''r2_c'' \<mapsto> (free_param 10)\<lparr>expr := Some ''r2_a'', vary := False\<rparr>,
                ''cs_b'' \<mapsto> free_param 1])"
  have c: "map_names ?self ''r2_i_c'' = Some ''r2_c''"
    and a: "map_names ?self ''r2_i_a'' = Some ''r2_a''"
    by (simp_all add: extend_fields)
  have mem: "''r2_i_c'' \<in> {''r2_i_b'', ''r2_i_c'', ''r2_i_d''}"
    by simp
  from transverse_rates_tied_to_state_a [OF demo_init_three_state mem c]
  obtain par where "default_params ?self ''r2_c'' = Some par" "expr par = Some ''r2_a''"
    unfolding a by auto
  with demo_init_three_state c a show ?thesis
    by blast
qed

section \<open>Properties of reading\<close>

text \<open>The loop over the files builds the profiles of the entries that are not skipped.\<close>

lemma read_loop_map_err:
  "read_loop env Profile path experiment_details res_incl res_excl items acc =
     (case map_err (\<lambda>(profile_name, filename).
               case loadtxt env (path_join path filename) of
                 Inl e \<Rightarrow> Inl e
               | Inr m \<Rightarrow> Profile profile_name m experiment_details)
             (filter (\<lambda>(profile_name, filename). \<not> skipped res_incl res_excl profile_name) items) of
        Inl e \<Rightarrow> Inl e
      | Inr xs \<Rightarrow> Inr (acc @ xs))"
proof (induction items arbitrary: acc)
  case Nil
  then show ?case by simp
next
  case (Cons item items)
  obtain profile_name filename where item: "item = (profile_name, filename)"
    by (cases item)
  show ?case
    unfolding item by (simp add: Cons.IH Let_def split: sum.splits)
qed

lemma read_profiles_Inr:
  assumes "read_profiles env path profile_filenames experiment_details res_incl res_excl
             = Inr (profiles, ndata)"
  shows "\<exists>ty Profile name constructed.
     experiment_details ''type'' = Some ty \<and>
     name_experiment env experiment_details = Inr name \<and>
     import_Profile env
       (py_join ''.'' [''chemex.experiments'', py_split CHR ''.'' ty ! 0, ''profiles'',
          py_split CHR ''.'' ty ! 1]) = Inr Profile \<and>
     read_loop env Profile path (experiment_details(''name'' \<mapsto> name)) res_incl res_excl
       profile_filenames [] = Inr constructed \<and>
     profiles =
       (if experiment_details ''error'' = Some ''auto''
        then map (\<lambda>profile. profile\<lparr>err := replicate (length (err profile))
                    (np_mean (map (estimate_noise env) constructed))\<rparr>) constructed
        else constructed) \<and>
     ndata = sum_list (map (\<lambda>profile. length (val profile)) profiles)"
  using assms unfolding read_profiles_def Let_def
  by (auto split: option.splits sum.splits if_splits simp del: read_loop.simps py_join.simps)


text \<open>
  Claim C10. Whenever \<open>read_profiles\<close> returns, the point count is the sum of the lengths
  of the returned intensity arrays. The returned profiles correspond, one to one and in
  order, to the profiles that the imported class builds from the loaded files of the
  entries that are not skipped, with the same intensities and as many uncertainties.
  With \<open>error\<close> set to \<open>auto\<close>, every uncertainty of every returned profile is the
  arithmetic mean of the estimated noise of the profiles as built; with \<open>error\<close> absent
  or set to anything else, every returned profile is the profile as built.
\<close>

theorem read_profiles_uncertainties_and_count:
  assumes "read_profiles env path profile_filenames experiment_details res_incl res_excl
             = Inr (profiles, ndata)"
  shows "ndata = sum_list (map (\<lambda>profile. length (val profile)) profiles) \<and>
    (\<exists>ty Profile name constructed.
       experiment_details ''type'' = Some ty \<and>
       name_experiment env experiment_details = Inr name \<and>
       import_Profile env
         (py_join ''.'' [''chemex.experiments'', py_split CHR ''.'' ty ! 0, ''profiles'',
            py_split CHR ''.'' ty ! 1]) = Inr Profile \<and>
       map_err (\<lambda>(profile_name, filename).
                  case loadtxt env (path_join path filename) of
                    Inl e \<Rightarrow> Inl e
                  | Inr m \<Rightarrow> Profile profile_name m (experiment_details(''name'' \<mapsto> name)))
         (filter (\<lambda>(profile_name, filename). \<not> skipped res_incl res_excl profile_name)
            profile_filenames) = Inr constructed \<and>
       length profiles = length constructed \<and>
       (\<forall>i < length constructed.
          val (profiles ! i) = val (constructed ! i) \<and>
          length (err (profiles ! i)) = length (err (constructed ! i)) \<and>
          (if experiment_details ''error'' = Some ''auto''
           then \<forall>e \<in> set (err (profiles ! i)).
                  e = sum_list (map (estimate_noise env) constructed) / real (length constructed)
           else profiles ! i = constructed ! i)))"
proof -
  obtain ty Profile name constructed where
    ty: "experiment_details ''type'' = Some ty"
    and name: "name_experiment env experiment_details = Inr name"
    and cls: "import_Profile env
       (py_join ''.'' [''chemex.experiments'', py_split CHR ''.'' ty ! 0, ''profiles'',
          py_split CHR ''.'' ty ! 1]) = Inr Profile"
    and loop: "read_loop env Profile path (experiment_details(''name'' \<mapsto> name)) res_incl res_excl
       profile_filenames [] = Inr constructed"
    and profiles: "profiles =
       (if experiment_details ''error'' = Some ''auto''
        then map (\<lambda>profile. profile\<lparr>err := replicate (length (err profile))
                    (np_mean (map (estimate_noise env) constructed))\<rparr>) constructed
        else constructed)"
    and ndata: "ndata = sum_list (map (\<lambda>profile. length (val profile)) profiles)"
    using read_profiles_Inr [OF assms] by blast
  have built: "map_err (\<lambda>(profile_name, filename).
                  case loadtxt env (path_join path filename) of
                    Inl e \<Rightarrow> Inl e
                  | Inr m \<Rightarrow> Profile profile_name m (experiment_details(''name'' \<mapsto> name)))
         (filter (\<lambda>(profile_name, filename). \<not> skipped res_incl res_excl profile_name)
            profile_filenames) = Inr constructed"
    using loop unfolding read_loop_map_err by (auto split: sum.splits)
  have len: "length profiles = length constructed"
    by (simp add: profiles)
  have each: "val (profiles ! i) = val (constructed ! i) \<and>
          length (err (profiles ! i)) = length (err (constructed ! i)) \<and>
          (if experiment_details ''error'' = Some ''auto''
           then \<forall>e \<in> set (err (profiles ! i)).
                  e = sum_list (map (estimate_noise env) constructed) / real (length constructed)
           else profiles ! i = constructed ! i)"
    if "i < length constructed" for i
    using that by (simp add: profiles np_mean_def)
  from ndata ty name cls built len each show ?thesis by blast
qed

text \<open>
  The example: two files with uncertainties 0.1, 0.2 and 0.3, estimated noise 0.15 and
  0.3, mean 0.225; three points.
\<close>

lemma demo_read_profiles:
  "read_profiles demo_env ''data'' [(''G23N'', ''g23.out''), (''L24N'', ''l24.out'')]
     demo_details None (Some [])
   = Inr ([\<lparr>profile_id = ''G23N'', val = [1.0, 0.8], err = [0.225, 0.225]\<rparr>,
           \<lparr>profile_id = ''L24N'', val = [1.0], err = [0.225]\<rparr>], 3)"
  by (simp add: read_profiles_def name_experiment_def demo_details_def demo_env_def
      demo_Profile_def skipped_def truthy_def contains_def path_join_def np_mean_def Let_def)

text \<open>The profiles as built, their uncertainties, the mean, and the result.\<close>

theorem read_profiles_auto_witness:
  "\<exists>constructed.
     map_err (\<lambda>(profile_name, filename).
                case loadtxt demo_env (path_join ''data'' filename) of
                  Inl e \<Rightarrow> Inl e
                | Inr m \<Rightarrow> demo_Profile profile_name m (demo_details(''name'' \<mapsto> ''run_1'')))
       [(''G23N'', ''g23.out''), (''L24N'', ''l24.out'')] = Inr constructed \<and>
     err (constructed ! 0) = [0.1, 0.2] \<and> err (constructed ! 1) = [0.3] \<and>
     sum_list (map (estimate_noise demo_env) constructed) / real (length constructed) = 0.225 \<and>
     read_profiles demo_env ''data'' [(''G23N'', ''g23.out''), (''L24N'', ''l24.out'')]
       demo_details None (Some [])
     = Inr ([\<lparr>profile_id = ''G23N'', val = [1.0, 0.8], err = [0.225, 0.225]\<rparr>,
             \<lparr>profile_id = ''L24N'', val = [1.0], err = [0.225]\<rparr>], 3)"
proof -
  from read_profiles_uncertainties_and_count [OF demo_read_profiles]
  obtain ty Profile name constructed where
    ty: "demo_details ''type'' = Some ty"
    and name: "name_experiment demo_env demo_details = Inr name"
    and cls: "import_Profile demo_env
         (py_join ''.'' [''chemex.experiments'', py_split CHR ''.'' ty ! 0, ''profiles'',
            py_split CHR ''.'' ty ! 1]) = Inr Profile"
    and built: "map_err (\<lambda>(profile_name, filename).
                  case loadtxt demo_env (path_join ''data'' filename) of
                    Inl e \<Rightarrow> Inl e
                  | Inr m \<Rightarrow> Profile profile_name m (demo_details(''name'' \<mapsto> name)))
         (filter (\<lambda>(profile_name, filename). \<not> skipped None (Some []) profile_name)
            [(''G23N'', ''g23.out''), (''L24N'', ''l24.out'')]) = Inr constructed"
    by blast
  have ty': "ty = ''cpmg.n15''"
    using ty by (simp add: demo_details_def)
  have name': "name = ''run_1''"
    using name by (simp add: name_experiment_def demo_details_def py_strip_def py_replace_def
        is_space_def)
  have cls': "Profile = demo_Profile"
    using cls unfolding ty' by (simp add: demo_env_def)
  have built': "map_err (\<lambda>(profile_name, filename).
                case loadtxt demo_env (path_join ''data'' filename) of
                  Inl e \<Rightarrow> Inl e
                | Inr m \<Rightarrow> demo_Profile profile_name m (demo_details(''name'' \<mapsto> ''run_1'')))
       [(''G23N'', ''g23.out''), (''L24N'', ''l24.out'')] = Inr constructed"
    using built unfolding name' cls' by (simp add: skipped_def truthy_def contains_def)
  then have c: "constructed = [\<lparr>profile_id = ''G23N'', val = [1.0, 0.8], err = [0.1, 0.2]\<rparr>,
           \<lparr>profile_id = ''L24N'', val = [1.0], err = [0.3]\<rparr>]"
    by (simp add: demo_env_def demo_Profile_def path_join_def)
  have vals: "err (constructed ! 0) = [0.1, 0.2]" "err (constructed ! 1) = [0.3]"
    "sum_list (map (estimate_noise demo_env) constructed) / real (length constructed) = 0.225"
    unfolding c by (simp_all add: demo_env_def np_mean_def)
  from built' vals demo_read_profiles show ?thesis by blast
qed

end
